theory Spec2Isabelle
  imports Complex_Main "HOL-Library.Log_Nat" "HOL-Library.AList" "HOL-Library.Multiset"
begin

section \<open>Python numbers\<close>

text \<open>
  The two agents compute with Python \<open>int\<close> (unbounded, modelled by \<^typ>\<open>int\<close>) and
  Python \<open>float\<close> (IEEE 754 binary64).  A float is modelled by the rational it denotes,
  or one of the three special values; every float operation rounds its exact result to
  the nearest binary64 value, ties to even, and overflows to an infinity.  Signed zeros
  are not distinguished (no operation below observes the sign of a zero).
\<close>

datatype py_error = ZeroDivisionError | OverflowError | ValueError | KeyError

datatype pyfloat = Finite rat | PInf | NInf | NaN

text \<open>\<open>binade x\<close> is the exponent \<open>e\<close> with \<open>2^e \<le> x < 2^(e+1)\<close>, for \<open>0 < x\<close>.\<close>

definition binade :: "rat \<Rightarrow> int" where
  "binade x = (if 1 \<le> x then bitlen \<lfloor>x\<rfloor> - 1 else - bitlen (\<lceil>1 / x\<rceil> - 1))"

definition round_half_even :: "rat \<Rightarrow> int" where
  "round_half_even x =
     (let n = \<lfloor>x\<rfloor>; d = x - of_int n
      in if d < 1 / 2 then n else if 1 / 2 < d then n + 1 else if even n then n else n + 1)"

text \<open>
  Rounding to binary64: 53 significant bits, the least exponent \<open>-1022\<close> (below it the
  spacing stays \<open>2^-1074\<close>: subnormal numbers), overflow from \<open>2^1024\<close> on.
\<close>

definition float_quantum :: "rat \<Rightarrow> rat" where
  "float_quantum x = 2 powi (max (binade \<bar>x\<bar>) (- 1022) - 52)"

definition round_to_precision :: "rat \<Rightarrow> rat" where
  "round_to_precision x =
     (if x = 0 then 0 else of_int (round_half_even (x / float_quantum x)) * float_quantum x)"

definition overflow_threshold :: rat where
  "overflow_threshold = 2 ^ 1024"

definition float_round :: "rat \<Rightarrow> pyfloat" where
  "float_round x =
     (let y = round_to_precision x
      in if overflow_threshold \<le> \<bar>y\<bar> then (if 0 < x then PInf else NInf) else Finite y)"

text \<open>A rational is a float value when rounding leaves it alone.\<close>

definition is_double :: "rat \<Rightarrow> bool" where
  "is_double x = (float_round x = Finite x)"

text \<open>A decimal literal of the source, such as \<open>0.8\<close>; all of them are in range.\<close>

definition float_literal :: "rat \<Rightarrow> rat" where
  "float_literal x = (case float_round x of Finite r \<Rightarrow> r | _ \<Rightarrow> 0)"

fun float_sgn :: "pyfloat \<Rightarrow> int" where
  "float_sgn (Finite a) = sgn \<lfloor>sgn a\<rfloor>"
| "float_sgn PInf = 1"
| "float_sgn NInf = - 1"
| "float_sgn NaN = 0"

definition signed_inf :: "int \<Rightarrow> pyfloat" where
  "signed_inf s = (if s = 0 then NaN else if 0 < s then PInf else NInf)"

fun float_neg :: "pyfloat \<Rightarrow> pyfloat" where
  "float_neg (Finite a) = Finite (- a)"
| "float_neg PInf = NInf"
| "float_neg NInf = PInf"
| "float_neg NaN = NaN"

fun float_add :: "pyfloat \<Rightarrow> pyfloat \<Rightarrow> pyfloat" where
  "float_add (Finite a) (Finite b) = float_round (a + b)"
| "float_add NaN y = NaN"
| "float_add x NaN = NaN"
| "float_add PInf NInf = NaN"
| "float_add NInf PInf = NaN"
| "float_add PInf y = PInf"
| "float_add NInf y = NInf"
| "float_add x PInf = PInf"
| "float_add x NInf = NInf"

definition float_sub :: "pyfloat \<Rightarrow> pyfloat \<Rightarrow> pyfloat" where
  "float_sub x y = float_add x (float_neg y)"

fun float_mul :: "pyfloat \<Rightarrow> pyfloat \<Rightarrow> pyfloat" where
  "float_mul (Finite a) (Finite b) = float_round (a * b)"
| "float_mul NaN y = NaN"
| "float_mul x NaN = NaN"
| "float_mul x y = signed_inf (float_sgn x * float_sgn y)"

text \<open>The division of the hardware: a zero divisor gives an infinity or NaN.\<close>

fun float_div :: "pyfloat \<Rightarrow> pyfloat \<Rightarrow> pyfloat" where
  "float_div NaN y = NaN"
| "float_div x NaN = NaN"
| "float_div (Finite a) (Finite b) = (if b = 0 then signed_inf (float_sgn (Finite a)) else float_round (a / b))"
| "float_div (Finite a) y = Finite 0"
| "float_div x (Finite b) = signed_inf (float_sgn x * (if b < 0 then - 1 else 1))"
| "float_div x y = NaN"

text \<open>Python's \<open>x / y\<close> on floats raises on a zero divisor.\<close>

definition float_truediv :: "pyfloat \<Rightarrow> pyfloat \<Rightarrow> py_error + pyfloat" where
  "float_truediv x y = (if y = Finite 0 then Inl ZeroDivisionError else Inr (float_div x y))"

fun float_lt :: "pyfloat \<Rightarrow> pyfloat \<Rightarrow> bool" where
  "float_lt NaN y = False"
| "float_lt x NaN = False"
| "float_lt (Finite a) (Finite b) = (a < b)"
| "float_lt x NInf = False"
| "float_lt PInf y = False"
| "float_lt x y = True"

definition float_gt :: "pyfloat \<Rightarrow> pyfloat \<Rightarrow> bool" where
  "float_gt x y = float_lt y x"

fun float_le :: "pyfloat \<Rightarrow> pyfloat \<Rightarrow> bool" where
  "float_le NaN y = False"
| "float_le x NaN = False"
| "float_le x y = (\<not> float_lt y x)"

text \<open>\<open>float(i)\<close> and the implicit conversion of an \<open>int\<close> operand of a float operation.\<close>

definition float_of_int :: "int \<Rightarrow> py_error + pyfloat" where
  "float_of_int i = (case float_round (of_int i) of Finite r \<Rightarrow> Inr (Finite r) | _ \<Rightarrow> Inl OverflowError)"

text \<open>\<open>a / b\<close> on two \<open>int\<close>s: the correctly rounded quotient.\<close>

definition int_truediv :: "int \<Rightarrow> int \<Rightarrow> py_error + pyfloat" where
  "int_truediv a b =
     (if b = 0 then Inl ZeroDivisionError
      else case float_round (of_int a / of_int b) of
             Finite r \<Rightarrow> Inr (Finite r)
           | _ \<Rightarrow> Inl OverflowError)"

text \<open>\<open>int(x)\<close> on a float truncates towards zero.\<close>

fun int_of_float :: "pyfloat \<Rightarrow> py_error + int" where
  "int_of_float (Finite a) = Inr (if 0 \<le> a then \<lfloor>a\<rfloor> else \<lceil>a\<rceil>)"
| "int_of_float NaN = Inl ValueError"
| "int_of_float x = Inl OverflowError"

text \<open>
  \<open>vx // wx\<close> on finite floats, as CPython computes it: the exact remainder \<open>fmod\<close>,
  the rounded quotient of \<open>vx - mod\<close>, the adjustment for a remainder whose sign
  differs from the divisor's, and the quotient snapped to an integral value.
\<close>

definition float_fmod :: "rat \<Rightarrow> rat \<Rightarrow> rat" where
  "float_fmod vx wx = (let t = vx / wx in vx - wx * of_int (if 0 \<le> t then \<lfloor>t\<rfloor> else \<lceil>t\<rceil>))"

definition snap_to_integral :: "pyfloat \<Rightarrow> pyfloat" where
  "snap_to_integral dv =
     (case dv of
        Finite d \<Rightarrow>
          (if d = 0 then Finite 0
           else let f = of_int \<lfloor>d\<rfloor>
                in if 1 / 2 < d - f then float_add (Finite f) (Finite 1) else Finite f)
      | _ \<Rightarrow> dv)"

definition float_floordiv :: "rat \<Rightarrow> rat \<Rightarrow> py_error + pyfloat" where
  "float_floordiv vx wx =
     (if wx = 0 then Inl ZeroDivisionError
      else let md = float_fmod vx wx;
               div0 = float_div (float_sub (Finite vx) (Finite md)) (Finite wx);
               dv = (if md \<noteq> 0 \<and> ((wx < 0) \<noteq> (md < 0)) then float_sub div0 (Finite 1) else div0)
           in Inr (snap_to_integral dv))"

text \<open>\<open>f * i\<close> and \<open>f / i\<close> with an \<open>int\<close> right operand, which is converted first.\<close>

definition float_mul_int :: "pyfloat \<Rightarrow> int \<Rightarrow> py_error + pyfloat" where
  "float_mul_int x i = (case float_of_int i of Inl e \<Rightarrow> Inl e | Inr y \<Rightarrow> Inr (float_mul x y))"

definition float_truediv_int :: "pyfloat \<Rightarrow> int \<Rightarrow> py_error + pyfloat" where
  "float_truediv_int x i = (case float_of_int i of Inl e \<Rightarrow> Inl e | Inr y \<Rightarrow> float_truediv x y)"

text \<open>A value that is an \<open>int\<close> on one path and a \<open>float\<close> on another.\<close>

datatype pynum = PyInt int | PyFloat pyfloat

section \<open>Python strings\<close>

text \<open>
  A character is a code point below 256 (Latin-1).  \<open>str.lower\<close> maps the capital
  letters \<open>A\<close>--\<open>Z\<close> and those of codes 192--222 (but not the multiplication sign, 215)
  to the small ones, 32 further; \<open>str.strip\<close> removes the white space at both ends:
  codes 9--13, 28--32, 133 (next line) and 160 (no-break space).
\<close>

definition lower_char :: "char \<Rightarrow> char" where
  "lower_char c =
     (let n = (of_char c :: nat)
      in if (65 \<le> n \<and> n \<le> 90) \<or> (192 \<le> n \<and> n \<le> 222 \<and> n \<noteq> 215) then char_of (n + 32) else c)"

definition lower :: "string \<Rightarrow> string" where
  "lower s = map lower_char s"

definition is_space :: "char \<Rightarrow> bool" where
  "is_space c =
     (let n = (of_char c :: nat)
      in (9 \<le> n \<and> n \<le> 13) \<or> (28 \<le> n \<and> n \<le> 32) \<or> n = 133 \<or> n = 160)"

definition strip :: "string \<Rightarrow> string" where
  "strip s = rev (dropWhile is_space (rev (dropWhile is_space s)))"

text \<open>\<open>d.get(k, default)\<close> on a dictionary given by its items.\<close>

definition dict_get :: "('k \<times> 'v) list \<Rightarrow> 'k \<Rightarrow> 'v \<Rightarrow> 'v" where
  "dict_get d k dflt = (case map_of d k of Some v \<Rightarrow> v | None \<Rightarrow> dflt)"

section \<open>The keyword optimizer agent\<close>

record keyword_data =
  competition :: string
  relevance :: int
  trend :: string

text \<open>The reasoning text of an analysis, with the values its f-string interpolates.\<close>

datatype reasoning_text =
    LowRelevance int
  | QualityDescriptor
  | DecliningHighCompetition
  | Overused pyfloat
  | StrongPerformer int string
  | ModeratePerformance

record KeywordAnalysis =
  keyword :: string
  frequency_across_listings :: int
  estimated_competition :: string
  relevance_score :: pynum
  replacement_suggestions :: "string list"
  action_recommendation :: string
  reasoning :: reasoning_text

definition kd :: "string \<Rightarrow> int \<Rightarrow> string \<Rightarrow> keyword_data" where
  "kd c r t = \<lparr>competition = c, relevance = r, trend = t\<rparr>"

definition initialize_keyword_database :: "(string \<times> keyword_data) list" where
  "initialize_keyword_database =
    [(''resist'', kd ''High'' 9 ''stable''),
     (''protest'', kd ''High'' 8 ''declining''),
     (''political'', kd ''High'' 7 ''stable''),
     (''government'', kd ''Medium'' 9 ''rising''),
     (''bureaucrat'', kd ''Low'' 10 ''rising''),
     (''civil servant'', kd ''Low'' 9 ''rising''),
     (''federal employee'', kd ''Medium'' 10 ''rising''),
     (''t shirt'', kd ''High'' 6 ''stable''),
     (''tshirt'', kd ''High'' 6 ''stable''),
     (''shirt'', kd ''High'' 7 ''stable''),
     (''tee'', kd ''Medium'' 8 ''rising''),
     (''apparel'', kd ''Medium'' 6 ''stable''),
     (''clothing'', kd ''High'' 5 ''declining''),
     (''sticker'', kd ''Medium'' 9 ''rising''),
     (''decal'', kd ''Low'' 8 ''stable''),
     (''mug'', kd ''High'' 7 ''stable''),
     (''cup'', kd ''High'' 6 ''declining''),
     (''hat'', kd ''Medium'' 8 ''stable''),
     (''cap'', kd ''Medium'' 7 ''stable''),
     (''gift'', kd ''High'' 8 ''stable''),
     (''present'', kd ''Medium'' 6 ''declining''),
     (''birthday gift'', kd ''High'' 7 ''stable''),
     (''retirement gift'', kd ''Medium'' 9 ''rising''),
     (''coworker gift'', kd ''Medium'' 8 ''rising''),
     (''funny'', kd ''High'' 8 ''stable''),
     (''humor'', kd ''Medium'' 9 ''rising''),
     (''sarcastic'', kd ''Low'' 9 ''rising''),
     (''satire'', kd ''Low'' 10 ''rising''),
     (''witty'', kd ''Low'' 8 ''stable''),
     (''beautiful'', kd ''High'' 2 ''declining''),
     (''perfect'', kd ''High'' 2 ''declining''),
     (''amazing'', kd ''High'' 2 ''declining''),
     (''awesome'', kd ''High'' 3 ''declining''),
     (''great'', kd ''High'' 2 ''declining''),
     (''best'', kd ''High'' 3 ''stable''),
     (''quality'', kd ''Medium'' 4 ''stable''),
     (''deep state'', kd ''Low'' 10 ''rising''),
     (''rogue'', kd ''Low'' 10 ''rising''),
     (''opsec'', kd ''Low'' 10 ''rising''),
     (''nato'', kd ''Low'' 9 ''rising''),
     (''cybersecurity'', kd ''Medium'' 9 ''rising''),
     (''classified'', kd ''Low'' 8 ''rising'')]"

text \<open>The agent: \<open>__init__\<close> stores the keyword database in \<open>self\<close>.\<close>

record KeywordOptimizerAgent =
  keyword_performance_db :: "(string \<times> keyword_data) list"

definition init_agent :: KeywordOptimizerAgent where
  "init_agent = \<lparr>keyword_performance_db = initialize_keyword_database\<rparr>"

definition replacements_table :: "(string \<times> string list) list" where
  "replacements_table =
    [(''political'', [''government humor'', ''civic satire'', ''bureaucrat gift'']),
     (''funny'', [''witty'', ''sarcastic'', ''humor'']),
     (''protest'', [''resistance gear'', ''activist apparel'', ''dissent'']),
     (''t shirt'', [''tee'', ''shirt design'', ''apparel'']),
     (''tshirt'', [''tee'', ''graphic shirt'', ''statement shirt'']),
     (''beautiful'', []),
     (''perfect'', []),
     (''amazing'', []),
     (''awesome'', [''witty'', ''clever'']),
     (''great'', [''quality'', ''premium'']),
     (''clothing'', [''apparel'', ''shirt'', ''tee'']),
     (''cup'', [''mug'', ''drinkware'', ''tumbler'']),
     (''present'', [''gift'', ''coworker gift'', ''retirement gift'']),
     (''resist'', [''resistance gear'', ''activist'', ''dissent'']),
     (''save democracy'', [''democracy defender'', ''civic engagement'', ''voting rights''])]"

definition get_replacement_suggestions :: "string \<Rightarrow> string list" where
  "get_replacement_suggestions kw = dict_get replacements_table kw []"

definition determine_action :: "string \<Rightarrow> keyword_data \<Rightarrow> pyfloat \<Rightarrow> string \<times> reasoning_text" where
  "determine_action kw keyword_data frequency_ratio =
     (let relevance' = relevance keyword_data;
          competition' = competition keyword_data;
          trend' = trend keyword_data
      in if relevance' \<le> 3 then (''Remove'', LowRelevance relevance')
         else if kw \<in> set [''beautiful'', ''perfect'', ''amazing'', ''awesome'', ''great''] \<and> relevance' \<le> 4
           then (''Remove'', QualityDescriptor)
         else if competition' = ''High'' \<and> trend' = ''declining'' \<and> relevance' \<le> 7
           then (''Replace'', DecliningHighCompetition)
         else if float_gt frequency_ratio (Finite (float_literal (8 / 10))) \<and> relevance' \<le> 8
           then (''Replace'', Overused (float_mul frequency_ratio (Finite 100)))
         else if 8 \<le> relevance' \<and> trend' \<in> set [''stable'', ''rising'']
           then (''Keep'', StrongPerformer relevance' trend')
         else (''Keep'', ModeratePerformance))"

definition default_keyword_data :: keyword_data where
  "default_keyword_data = \<lparr>competition = ''Unknown'', relevance = 5, trend = ''stable''\<rparr>"

definition analyze_single_keyword ::
    "KeywordOptimizerAgent \<Rightarrow> string \<Rightarrow> int \<Rightarrow> int \<Rightarrow> py_error + KeywordAnalysis" where
  "analyze_single_keyword self kw frequency total_listings =
     (let keyword_clean = strip (lower kw);
          keyword_data = dict_get (keyword_performance_db self) keyword_clean default_keyword_data
      in case int_truediv frequency total_listings of
           Inl e \<Rightarrow> Inl e
         | Inr frequency_ratio \<Rightarrow>
            (case (if float_gt frequency_ratio (Finite (float_literal (7 / 10)))
                   then (case float_of_int (relevance keyword_data) of
                           Inl e \<Rightarrow> Inl e
                         | Inr r \<Rightarrow> Inr (PyFloat (float_mul r (Finite (float_literal (8 / 10))))))
                   else Inr (PyInt (relevance keyword_data))) of
               Inl e \<Rightarrow> Inl e
             | Inr relevance_score' \<Rightarrow>
                (let replacements = get_replacement_suggestions keyword_clean;
                     (action, reason) = determine_action keyword_clean keyword_data frequency_ratio
                 in Inr \<lparr>keyword = kw,
                          frequency_across_listings = frequency,
                          estimated_competition = competition keyword_data,
                          relevance_score = relevance_score',
                          replacement_suggestions = replacements,
                          action_recommendation = action,
                          reasoning = reason\<rparr>)))"

section \<open>The market research agent\<close>

text \<open>
  An opportunity as the research data gives it (a dictionary with these keys), and the
  scored \<open>MarketOpportunity\<close> built from it.  Prices and seasonal factors are finite
  floats.
\<close>

record opp_data =
  name :: string
  category :: string
  search_volume :: int
  competition_level :: string
  avg_price :: rat
  seasonal_factor :: rat
  keywords' :: "string list"
  skill_requirements :: "string list"
  resource_requirements :: "string list"

record MarketOpportunity = opp_data +
  effort_score :: int
  impact_score :: int
  confidence_score :: int
  timeline :: string

record CapabilityProfile =
  skills :: "string set"
  tools_available :: "string set"
  tools_not_available :: "string set"
  time_availability :: "(string \<times> int) list"
  budget :: rat
  learning_capacity :: string

text \<open>The two entries of the configuration that the agent reads.\<close>

record market_config =
  excluded_categories :: "string list"
  preferred_categories :: "string list"

record EtsyMarketResearcher =
  config :: market_config
  capability_profile :: CapabilityProfile

definition default_config :: market_config where
  "default_config =
     \<lparr>excluded_categories =
        [''woodworking'', ''metalworking'', ''glass blowing'', ''pottery wheel'',
         ''jewelry casting'', ''leather working'', ''screen printing''],
      preferred_categories =
        [''digital products'', ''printables'', ''simple crafts'', ''planning'',
         ''stickers'', ''cards'', ''simple sewing'', ''knitting'', ''crochet'']\<rparr>"

definition load_capability_profile :: CapabilityProfile where
  "load_capability_profile =
     \<lparr>skills = {''digital_design'', ''basic_sewing'', ''writing'', ''planning'', ''organization''},
      tools_available = {''computer'', ''printer'', ''basic_sewing_supplies'', ''design_software''},
      tools_not_available = {''woodworking_tools'', ''pottery_wheel'', ''metalworking'', ''advanced_machinery''},
      time_availability = [(''quick_wins'', 2), (''weekend_projects'', 8), (''major_initiatives'', 40)],
      budget = 200,
      learning_capacity = ''Medium''\<rparr>"

text \<open>The researcher as \<open>__init__\<close> builds it when no configuration file is found.\<close>

definition init_researcher :: EtsyMarketResearcher where
  "init_researcher = \<lparr>config = default_config, capability_profile = load_capability_profile\<rparr>"

definition potential_opportunities :: "opp_data list" where
  "potential_opportunities =
     [\<lparr>name = ''Digital Planning Printables'', category = ''digital_products'',
       search_volume = 5000, competition_level = ''Medium'',
       avg_price = float_literal (25 / 2), seasonal_factor = float_literal (12 / 10),
       keywords' = [''digital planner'', ''printable planner'', ''goal setting'', ''productivity''],
       skill_requirements = [''digital_design'', ''planning''],
       resource_requirements = [''design_software'', ''time'']\<rparr>,
      \<lparr>name = ''Custom Wedding Stickers'', category = ''stickers'',
       search_volume = 3200, competition_level = ''High'',
       avg_price = float_literal (875 / 100), seasonal_factor = float_literal (15 / 10),
       keywords' = [''wedding stickers'', ''custom labels'', ''bridal shower''],
       skill_requirements = [''digital_design'', ''customer_service''],
       resource_requirements = [''design_software'', ''printer'', ''sticker_paper'']\<rparr>,
      \<lparr>name = ''Handmade Baby Bibs'', category = ''sewing'',
       search_volume = 2100, competition_level = ''Low'',
       avg_price = float_literal 15, seasonal_factor = float_literal 1,
       keywords' = [''baby bib'', ''handmade'', ''personalized'', ''organic''],
       skill_requirements = [''basic_sewing'', ''pattern_following''],
       resource_requirements = [''sewing_machine'', ''fabric'', ''thread'']\<rparr>,
      \<lparr>name = ''Wooden Cutting Boards'', category = ''woodworking'',
       search_volume = 4500, competition_level = ''Medium'',
       avg_price = float_literal 35, seasonal_factor = float_literal (13 / 10),
       keywords' = [''cutting board'', ''wooden'', ''handmade'', ''kitchen''],
       skill_requirements = [''woodworking'', ''finishing''],
       resource_requirements = [''woodworking_tools'', ''wood'', ''workspace'']\<rparr>]"

definition is_opportunity_feasible :: "EtsyMarketResearcher \<Rightarrow> opp_data \<Rightarrow> bool" where
  "is_opportunity_feasible self d =
     (let required_skills = set (skill_requirements d);
          required_tools = set (resource_requirements d)
      in if category d \<in> set (excluded_categories (config self)) then False
         else if \<not> required_skills \<subseteq> skills (capability_profile self)
                 \<and> learning_capacity (capability_profile self) = ''Low''
                 \<and> 1 < card (required_skills - skills (capability_profile self)) then False
         else if \<exists>tool \<in> required_tools. tool \<in> tools_not_available (capability_profile self) then False
         else True)"

definition calculate_effort_score :: "EtsyMarketResearcher \<Rightarrow> opp_data \<Rightarrow> int" where
  "calculate_effort_score self d =
     (let base_effort = 2;
          missing_skills = set (skill_requirements d) - skills (capability_profile self);
          base_effort = base_effort + int (card missing_skills);
          base_effort = (if competition_level d = ''High'' then base_effort + 1
                         else if competition_level d = ''Low'' then base_effort - 1
                         else base_effort);
          base_effort = (if category d \<in> set (preferred_categories (config self))
                         then base_effort - 1 else base_effort)
      in max 1 (min 5 base_effort))"

definition competition_penalty :: "(string \<times> int) list" where
  "competition_penalty = [(''Low'', 0), (''Medium'', - 1), (''High'', - 2)]"

definition calculate_impact_score :: "opp_data \<Rightarrow> py_error + int" where
  "calculate_impact_score d =
     (let volume_score = min 5 (max 1 (search_volume d div 1000 + 1))
      in case float_floordiv (avg_price d) 10 of
           Inl e \<Rightarrow> Inl e
         | Inr pq \<Rightarrow>
        (case int_of_float pq of
           Inl e \<Rightarrow> Inl e
         | Inr p \<Rightarrow>
        (let price_score = min 5 (max 1 p)
         in case float_mul_int (Finite (seasonal_factor d)) 3 of
              Inl e \<Rightarrow> Inl e
            | Inr sf \<Rightarrow>
           (case int_of_float sf of
              Inl e \<Rightarrow> Inl e
            | Inr s \<Rightarrow>
           (let seasonal_score = min 5 s
            in case map_of competition_penalty (competition_level d) of
                 None \<Rightarrow> Inl KeyError
               | Some penalty \<Rightarrow>
                   (let impact = (volume_score + price_score + seasonal_score) div 3 + penalty
                    in Inr (max 1 (min 5 impact))))))))"

definition calculate_confidence_score :: "EtsyMarketResearcher \<Rightarrow> opp_data \<Rightarrow> int" where
  "calculate_confidence_score self d =
     (let confidence = 3;
          skill_overlap = int (card (set (skill_requirements d) \<inter> skills (capability_profile self)));
          confidence = confidence + min 2 skill_overlap;
          confidence = (if competition_level d = ''High'' then confidence - 1 else confidence)
      in max 1 (min 5 confidence))"

definition determine_timeline :: "int \<Rightarrow> opp_data \<Rightarrow> string" where
  "determine_timeline effort d =
     (if effort \<le> 2 then ''Quick Win''
      else if effort = 3 then ''Weekend Project''
      else if effort = 4 then ''Major Initiative''
      else ''Long-term Strategy'')"

definition calculate_priority_score :: "MarketOpportunity \<Rightarrow> py_error + pyfloat" where
  "calculate_priority_score opp =
     (case int_truediv (search_volume opp) 1000 of
        Inl e \<Rightarrow> Inl e
      | Inr reach \<Rightarrow>
     (case float_mul_int reach (impact_score opp) of
        Inl e \<Rightarrow> Inl e
      | Inr ri \<Rightarrow>
     (case float_mul_int ri (confidence_score opp) of
        Inl e \<Rightarrow> Inl e
      | Inr ric \<Rightarrow> float_truediv_int ric (effort_score opp))))"

definition create_market_opportunity :: "EtsyMarketResearcher \<Rightarrow> opp_data \<Rightarrow> py_error + MarketOpportunity" where
  "create_market_opportunity self d =
     (let effort = calculate_effort_score self d
      in case calculate_impact_score d of
           Inl e \<Rightarrow> Inl e
         | Inr impact \<Rightarrow>
             (let confidence = calculate_confidence_score self d;
                  tl = determine_timeline effort d
              in Inr (opp_data.extend d
                        (MarketOpportunity.fields effort impact confidence tl))))"

text \<open>
  The loop of \<open>research_market_opportunities\<close>, over any list of research data (the
  source runs it on \<open>potential_opportunities\<close>).
\<close>

fun research_loop :: "EtsyMarketResearcher \<Rightarrow> opp_data list \<Rightarrow> py_error + MarketOpportunity list" where
  "research_loop self [] = Inr []"
| "research_loop self (d # ds) =
     (if is_opportunity_feasible self d
      then (case create_market_opportunity self d of
              Inl e \<Rightarrow> Inl e
            | Inr opp \<Rightarrow>
                (case research_loop self ds of
                   Inl e \<Rightarrow> Inl e
                 | Inr opps \<Rightarrow> Inr (opp # opps)))
      else research_loop self ds)"

text \<open>
  \<open>sorted(opportunities, key=..., reverse=True)\<close>: the keys are computed first, in list
  order; the sort is stable and descending.  With a NaN among the keys Python's order
  depends on its sorting algorithm, and this insertion sort does not model it.
\<close>

fun priority_keys :: "MarketOpportunity list \<Rightarrow> py_error + (pyfloat \<times> MarketOpportunity) list" where
  "priority_keys [] = Inr []"
| "priority_keys (opp # opps) =
     (case calculate_priority_score opp of
        Inl e \<Rightarrow> Inl e
      | Inr k \<Rightarrow>
          (case priority_keys opps of
             Inl e \<Rightarrow> Inl e
           | Inr ks \<Rightarrow> Inr ((k, opp) # ks)))"

fun insert_descending :: "pyfloat \<times> 'a \<Rightarrow> (pyfloat \<times> 'a) list \<Rightarrow> (pyfloat \<times> 'a) list" where
  "insert_descending x [] = [x]"
| "insert_descending x (y # ys) =
     (if float_lt (fst x) (fst y) then y # insert_descending x ys else x # y # ys)"

definition sorted_reverse :: "(pyfloat \<times> 'a) list \<Rightarrow> 'a list" where
  "sorted_reverse kxs = map snd (foldr insert_descending kxs [])"

definition research_opportunities :: "EtsyMarketResearcher \<Rightarrow> opp_data list \<Rightarrow> py_error + MarketOpportunity list" where
  "research_opportunities self ds =
     (case research_loop self ds of
        Inl e \<Rightarrow> Inl e
      | Inr opportunities \<Rightarrow>
          (case priority_keys opportunities of
             Inl e \<Rightarrow> Inl e
           | Inr ks \<Rightarrow> Inr (sorted_reverse ks)))"

definition research_market_opportunities :: "EtsyMarketResearcher \<Rightarrow> py_error + MarketOpportunity list" where
  "research_market_opportunities self = research_opportunities self potential_opportunities"

text \<open>
  The grouping of \<open>generate_opportunity_report\<close>: a dictionary with the four timeline
  names as keys, each opportunity appended to the list under its own timeline.  (The
  report then shows the first five of each list.)
\<close>

definition timeline_names :: "string list" where
  "timeline_names = [''Quick Win'', ''Weekend Project'', ''Major Initiative'', ''Long-term Strategy'']"

definition empty_categorized :: "(string \<times> MarketOpportunity list) list" where
  "empty_categorized = map (\<lambda>t. (t, [])) timeline_names"

fun categorize ::
    "MarketOpportunity list \<Rightarrow> (string \<times> MarketOpportunity list) list
      \<Rightarrow> py_error + (string \<times> MarketOpportunity list) list" where
  "categorize [] categorized = Inr categorized"
| "categorize (opp # opps) categorized =
     (case map_of categorized (timeline opp) of
        None \<Rightarrow> Inl KeyError
      | Some xs \<Rightarrow> categorize opps (AList.update (timeline opp) (xs @ [opp]) categorized))"

definition categorized_opportunities :: "MarketOpportunity list \<Rightarrow> py_error + (string \<times> MarketOpportunity list) list" where
  "categorized_opportunities opportunities = categorize opportunities empty_categorized"

section \<open>The impact formula of the specification\<close>




text \<open>A float that is not negative: a finite one from 0 on, or the positive infinity.\<close>

definition float_nonneg :: "pyfloat \<Rightarrow> bool" where
  "float_nonneg x = float_le (Finite 0) x"

section \<open>Rounding to binary64\<close>

lemma binade_bounds:
  assumes "0 < x"
  shows "2 powi (binade x) \<le> x \<and> x < 2 powi (binade x + 1)"
proof (cases "1 \<le> x")
  case True
  define n where "n = \<lfloor>x\<rfloor>"
  have n1: "1 \<le> n" using True by (simp add: n_def le_floor_iff)
  then have bl: "1 \<le> bitlen n"
    using bitlen_eq_zero_iff [of n] bitlen_nonneg [of n] by linarith
  from n1 have bb: "2 ^ nat (bitlen n - 1) \<le> n" "n < 2 ^ nat (bitlen n)"
    using bitlen_bounds [of n] by auto
  have b: "binade x = bitlen n - 1" using True by (simp add: binade_def n_def)
  have "(2::rat) powi (bitlen n - 1) = of_int (2 ^ nat (bitlen n - 1))"
    using bl by (simp add: power_int_def)
  also have "\<dots> \<le> of_int n" using bb(1) by (simp only: of_int_le_iff)
  also have "\<dots> \<le> x" by (simp add: n_def)
  finally have lo: "2 powi (binade x) \<le> x" by (simp add: b)
  have "x < of_int (n + 1)" using floor_correct [of x] by (simp add: n_def)
  also have "\<dots> \<le> of_int (2 ^ nat (bitlen n))" using bb(2) by (simp only: of_int_le_iff)
  also have "\<dots> = (2::rat) powi (bitlen n)" using bl by (simp add: power_int_def)
  finally have "x < 2 powi (binade x + 1)" by (simp add: b)
  with lo show ?thesis by simp
next
  case False
  define y where "y = 1 / x"
  define m where "m = \<lceil>y\<rceil> - 1"
  have y1: "1 < y" using False assms by (simp add: y_def)
  then have m1: "1 \<le> m" by (simp add: m_def less_ceiling_iff)
  then have bl: "1 \<le> bitlen m"
    using bitlen_eq_zero_iff [of m] bitlen_nonneg [of m] by linarith
  from m1 have bb: "2 ^ nat (bitlen m - 1) \<le> m" "m < 2 ^ nat (bitlen m)"
    using bitlen_bounds [of m] by auto
  have b: "binade x = - bitlen m" using False by (simp add: binade_def m_def y_def)
  have "of_int m < y" using ceiling_correct [of y] by (simp add: m_def)
  moreover have "(2::rat) ^ nat (bitlen m - 1) = of_int (2 ^ nat (bitlen m - 1))" by simp
  moreover have "(of_int (2 ^ nat (bitlen m - 1)) :: rat) \<le> of_int m"
    using bb(1) by (simp only: of_int_le_iff)
  ultimately have ylo: "2 ^ nat (bitlen m - 1) < y" by linarith
  have "y \<le> of_int (m + 1)" by (simp add: m_def)
  also have "\<dots> \<le> of_int (2 ^ nat (bitlen m))" using bb(2) by (simp only: of_int_le_iff)
  finally have yhi: "y \<le> 2 ^ nat (bitlen m)" by simp
  have xy: "1 / y = x" using assms by (simp add: y_def)
  have "(2::rat) powi (- bitlen m) = 1 / 2 ^ nat (bitlen m)"
    using bl by (simp add: power_int_def field_simps)
  also have "\<dots> \<le> 1 / y" using yhi y1 by (simp add: frac_le)
  finally have lo: "2 powi (binade x) \<le> x" by (simp add: b xy)
  have "1 / y < 1 / 2 ^ nat (bitlen m - 1)" using ylo by (simp add: frac_less2)
  also have "\<dots> = (2::rat) powi (- bitlen m + 1)"
  proof (cases "bitlen m = 1")
    case True then show ?thesis by simp
  next
    case False
    with bl have "- bitlen m + 1 < 0" by simp
    moreover have "nat (- (- bitlen m + 1)) = nat (bitlen m - 1)" by simp
    ultimately show ?thesis by (simp add: power_int_def field_simps)
  qed
  finally have "x < 2 powi (binade x + 1)" by (simp add: b xy)
  with lo show ?thesis by simp
qed

lemma round_half_even_mono: "x \<le> y \<Longrightarrow> round_half_even x \<le> round_half_even y"
proof -
  assume xy: "x \<le> y"
  have fl: "\<lfloor>x\<rfloor> \<le> \<lfloor>y\<rfloor>" using xy by (rule floor_mono)
  show ?thesis
  proof (cases "\<lfloor>x\<rfloor> = \<lfloor>y\<rfloor>")
    case True
    with xy show ?thesis by (auto simp: round_half_even_def Let_def)
  next
    case False
    with fl have "\<lfloor>x\<rfloor> + 1 \<le> \<lfloor>y\<rfloor>" by simp
    moreover have "round_half_even x \<le> \<lfloor>x\<rfloor> + 1" by (auto simp: round_half_even_def Let_def)
    moreover have "\<lfloor>y\<rfloor> \<le> round_half_even y" by (auto simp: round_half_even_def Let_def)
    ultimately show ?thesis by linarith
  qed
qed

lemma round_half_even_of_int [simp]: "round_half_even (of_int n) = n"
  by (simp add: round_half_even_def)

lemma round_half_even_minus: "round_half_even (- x) = - round_half_even x"
proof (cases "x = of_int \<lfloor>x\<rfloor>")
  case True
  then obtain n where "x = of_int n" ..
  then show ?thesis by (simp add: round_half_even_def del: of_int_minus add: of_int_minus [symmetric])
next
  case False
  then have "\<lfloor>- x\<rfloor> = - \<lfloor>x\<rfloor> - 1"
    by (metis ceiling_altdef ceiling_def add_diff_cancel_right' minus_diff_eq uminus_add_conv_diff)
  then show ?thesis using False
    by (auto simp: round_half_even_def Let_def)
qed

lemma float_quantum_pos [simp]: "0 < float_quantum x"
  by (simp add: float_quantum_def)

lemma float_quantum_minus [simp]: "float_quantum (- x) = float_quantum x"
  by (simp add: float_quantum_def)

lemma round_to_precision_minus: "round_to_precision (- x) = - round_to_precision x"
  by (simp add: round_to_precision_def round_half_even_minus)

lemma round_to_precision_nonneg: "0 \<le> x \<Longrightarrow> 0 \<le> round_to_precision x"
proof -
  assume "0 \<le> x"
  then have "0 \<le> x / float_quantum x"
    using float_quantum_pos [of x] by (simp add: less_imp_le)
  then have "round_half_even 0 \<le> round_half_even (x / float_quantum x)"
    by (rule round_half_even_mono)
  then have "0 \<le> round_half_even (x / float_quantum x)"
    using round_half_even_of_int [of 0] by simp
  then show ?thesis
    using float_quantum_pos [of x] by (simp add: round_to_precision_def zero_le_mult_iff less_imp_le)
qed

lemma binade_mono:
  assumes "0 < x" "x \<le> y"
  shows "binade x \<le> binade y"
proof -
  have "(2::rat) powi (binade x) \<le> x" using binade_bounds [of x] assms by simp
  also have "x \<le> y" by fact
  also have "y < 2 powi (binade y + 1)" using binade_bounds [of y] assms by simp
  finally have "binade x < binade y + 1"
    by (metis less_le_not_le linorder_not_le one_less_numeral_iff semiring_norm(76) power_int_increasing)
  then show ?thesis by simp
qed

lemma pow2_split: "(2::rat) powi (e + 1) = 2 ^ 53 * 2 powi (e - 52)"
proof -
  have "(2::rat) powi (53 + (e - 52)) = 2 powi 53 * 2 powi (e - 52)"
    by (rule power_int_add) simp
  then show ?thesis by (simp add: algebra_simps)
qed

lemma pow2_split': "(2::rat) powi e = 2 ^ 52 * 2 powi (e - 52)"
proof -
  have "(2::rat) powi (52 + (e - 52)) = 2 powi 52 * 2 powi (e - 52)"
    by (rule power_int_add) simp
  then show ?thesis by (simp add: algebra_simps)
qed

lemma round_to_precision_upper:
  assumes "0 < x"
  shows "round_to_precision x \<le> 2 powi (max (binade x) (- 1022) + 1)"
proof -
  define e where "e = max (binade x) (- 1022)"
  define q where "q = (2::rat) powi (e - 52)"
  have q: "0 < q" by (simp add: q_def)
  have fq: "float_quantum x = q" using assms by (simp add: float_quantum_def q_def e_def)
  have "x < 2 powi (binade x + 1)" using binade_bounds [of x] assms by simp
  also have "\<dots> \<le> 2 powi (e + 1)" by (rule power_int_increasing) (simp_all add: e_def)
  also have "\<dots> = 2 ^ 53 * q" by (simp add: pow2_split q_def)
  finally have "x / q \<le> of_int (2 ^ 53)" using q by (simp add: field_simps)
  then have "round_half_even (x / q) \<le> round_half_even (of_int (2 ^ 53))"
    by (rule round_half_even_mono)
  then have "round_half_even (x / q) \<le> 2 ^ 53" by (simp only: round_half_even_of_int)
  then have "(of_int (round_half_even (x / q)) :: rat) \<le> of_int (2 ^ 53)"
    by (simp only: of_int_le_iff)
  then have "of_int (round_half_even (x / q)) * q \<le> 2 ^ 53 * q" using q by simp
  then show ?thesis using assms by (simp add: round_to_precision_def fq pow2_split e_def q_def)
qed

lemma round_to_precision_lower:
  assumes "0 < x" "- 1022 \<le> binade x"
  shows "2 powi (binade x) \<le> round_to_precision x"
proof -
  define e where "e = binade x"
  define q where "q = (2::rat) powi (e - 52)"
  have q: "0 < q" by (simp add: q_def)
  have fq: "float_quantum x = q" using assms by (simp add: float_quantum_def q_def e_def max_def)
  have "2 ^ 52 * q = 2 powi e" by (simp add: q_def pow2_split' [of e])
  also have "\<dots> \<le> x" using binade_bounds [of x] assms by (simp add: e_def)
  finally have "of_int (2 ^ 52) \<le> x / q" using q by (simp add: field_simps)
  then have "round_half_even (of_int (2 ^ 52)) \<le> round_half_even (x / q)"
    by (rule round_half_even_mono)
  then have "2 ^ 52 \<le> round_half_even (x / q)" by (simp only: round_half_even_of_int)
  then have "(of_int (2 ^ 52) :: rat) \<le> of_int (round_half_even (x / q))"
    by (simp only: of_int_le_iff)
  then have "2 ^ 52 * q \<le> of_int (round_half_even (x / q)) * q" using q by simp
  then show ?thesis using assms by (simp add: round_to_precision_def fq pow2_split' [of e] e_def [symmetric] q_def)
qed

lemma round_to_precision_mono_pos:
  assumes "0 < x" "x \<le> y"
  shows "round_to_precision x \<le> round_to_precision y"
proof -
  define ex where "ex = max (binade x) (- 1022)"
  define ey where "ey = max (binade y) (- 1022)"
  have y: "0 < y" using assms by simp
  have le: "ex \<le> ey" using binade_mono [OF assms] by (simp add: ex_def ey_def max_def)
  show ?thesis
  proof (cases "ex = ey")
    case True
    then have fq: "float_quantum x = float_quantum y"
      using assms y by (simp add: float_quantum_def ex_def ey_def)
    have "x / float_quantum y \<le> y / float_quantum y"
      using assms float_quantum_pos [of y] by (simp add: divide_right_mono less_imp_le)
    then have "round_half_even (x / float_quantum y) \<le> round_half_even (y / float_quantum y)"
      by (rule round_half_even_mono)
    then have "(of_int (round_half_even (x / float_quantum y)) :: rat) * float_quantum y
        \<le> of_int (round_half_even (y / float_quantum y)) * float_quantum y"
      using float_quantum_pos [of y] by simp
    then show ?thesis using assms y by (simp add: round_to_precision_def fq)
  next
    case False
    with le have lt: "ex < ey" by simp
    then have bey: "ey = binade y" "- 1022 \<le> binade y" by (auto simp: ex_def ey_def max_def split: if_splits)
    have "round_to_precision x \<le> 2 powi (ex + 1)"
      using round_to_precision_upper [OF assms(1)] by (simp add: ex_def)
    also have "\<dots> \<le> 2 powi ey" using lt by (intro power_int_increasing) simp_all
    also have "\<dots> \<le> round_to_precision y"
      using round_to_precision_lower [OF y bey(2)] by (simp add: bey(1))
    finally show ?thesis .
  qed
qed

lemma round_to_precision_mono:
  assumes "x \<le> y"
  shows "round_to_precision x \<le> round_to_precision y"
proof -
  consider "0 < x" | "x \<le> 0" "0 \<le> y" | "y < 0" by linarith
  then show ?thesis
  proof cases
    case 1
    then show ?thesis using assms by (rule round_to_precision_mono_pos)
  next
    case 2
    have "round_to_precision x = - round_to_precision (- x)"
      using round_to_precision_minus [of "- x"] by simp
    moreover have "0 \<le> round_to_precision (- x)" using 2 by (intro round_to_precision_nonneg) simp
    moreover have "0 \<le> round_to_precision y" using 2 by (intro round_to_precision_nonneg)
    ultimately show ?thesis by linarith
  next
    case 3
    then have "round_to_precision (- y) \<le> round_to_precision (- x)"
      using assms by (intro round_to_precision_mono_pos) simp_all
    then show ?thesis by (simp add: round_to_precision_minus)
  qed
qed

lemma float_round_mono:
  assumes "x \<le> y"
  shows "float_le (float_round x) (float_round y)"
proof -
  have m: "round_to_precision x \<le> round_to_precision y" using assms by (rule round_to_precision_mono)
  have px: "0 < x \<Longrightarrow> 0 \<le> round_to_precision x" by (simp add: round_to_precision_nonneg)
  have py: "0 < y \<Longrightarrow> 0 \<le> round_to_precision y" by (simp add: round_to_precision_nonneg)
  have nx: "\<not> 0 < x \<Longrightarrow> round_to_precision x \<le> 0"
    using round_to_precision_nonneg [of "- x"] by (simp add: round_to_precision_minus)
  have ny: "\<not> 0 < y \<Longrightarrow> round_to_precision y \<le> 0"
    using round_to_precision_nonneg [of "- y"] by (simp add: round_to_precision_minus)
  show ?thesis
    using m px py nx ny assms by (auto simp: float_round_def Let_def)
qed

lemma float_round_bounded:
  assumes "is_double b" "\<bar>x\<bar> \<le> b"
  shows "float_round x = Finite (round_to_precision x) \<and> \<bar>round_to_precision x\<bar> \<le> b"
proof -
  from assms(1) have b: "round_to_precision b = b" "\<bar>b\<bar> < overflow_threshold"
    by (auto simp: is_double_def float_round_def Let_def split: if_splits)
  have "round_to_precision x \<le> round_to_precision b" using assms(2) by (intro round_to_precision_mono) simp
  moreover have "round_to_precision (- b) \<le> round_to_precision x" using assms(2) by (intro round_to_precision_mono) simp
  ultimately have "\<bar>round_to_precision x\<bar> \<le> b" using b(1) by (simp add: round_to_precision_minus abs_le_iff)
  then show ?thesis using b(2) by (simp add: float_round_def Let_def)
qed

lemma bitlen_pow2: "bitlen (2 ^ n) = int n + 1"
  using bitlen_twopow_add_eq [of 0 n] by simp

lemma binade_pow2: "binade (2 ^ n) = int n"
proof -
  have "\<lfloor>(2::rat) ^ n\<rfloor> = 2 ^ n" by (metis floor_of_int of_int_numeral of_int_power)
  then show ?thesis by (simp add: binade_def bitlen_pow2)
qed

lemma is_double_pow2:
  assumes "n < 1024"
  shows "is_double (2 ^ n)"
proof -
  have fq: "float_quantum (2 ^ n) = 2 powi (int n - 52)"
    by (simp add: float_quantum_def binade_pow2)
  have "(2::rat) ^ n = 2 powi (int n)" by simp
  also have "\<dots> = 2 ^ 52 * 2 powi (int n - 52)" by (rule pow2_split')
  finally have e: "(2::rat) ^ n = 2 ^ 52 * 2 powi (int n - 52)" .
  then have d: "(2::rat) ^ n / 2 powi (int n - 52) = of_int (2 ^ 52)" by simp
  have "round_to_precision (2 ^ n)
      = of_int (round_half_even (2 ^ n / 2 powi (int n - 52))) * 2 powi (int n - 52)"
    by (simp add: round_to_precision_def fq)
  also have "\<dots> = of_int (2 ^ 52) * 2 powi (int n - 52)"
    by (simp only: d round_half_even_of_int)
  also have "\<dots> = 2 ^ n" using e by simp
  finally have r: "round_to_precision (2 ^ n) = 2 ^ n" .
  have "(2::rat) ^ n < 2 ^ 1024" using assms by (intro power_strict_increasing) simp_all
  then show ?thesis by (simp add: is_double_def float_round_def Let_def r overflow_threshold_def del: power_numeral)
qed

lemma binade_unique:
  assumes "0 < x" "2 powi e \<le> x" "x < 2 powi (e + 1)"
  shows "binade x = e"
proof -
  have b: "2 powi (binade x) \<le> x" "x < 2 powi (binade x + 1)"
    using binade_bounds [OF assms(1)] by simp_all
  have "\<not> binade x + 1 \<le> e"
  proof
    assume "binade x + 1 \<le> e"
    then have "(2::rat) powi (binade x + 1) \<le> 2 powi e" by (intro power_int_increasing) simp_all
    with b(2) assms(2) show False by linarith
  qed
  moreover have "\<not> e + 1 \<le> binade x"
  proof
    assume "e + 1 \<le> binade x"
    then have "(2::rat) powi (e + 1) \<le> 2 powi (binade x)" by (intro power_int_increasing) simp_all
    with b(1) assms(3) show False by linarith
  qed
  ultimately show ?thesis by linarith
qed

lemma round_half_even_near:
  assumes "\<bar>y - of_int n\<bar> < 1 / 2"
  shows "round_half_even y = n"
proof (cases "of_int n \<le> y")
  case True
  then have "\<lfloor>y\<rfloor> = n" using assms by (intro floor_unique) (simp_all add: abs_less_iff)
  then show ?thesis using assms True by (simp add: round_half_even_def Let_def abs_less_iff)
next
  case False
  then have "\<lfloor>y\<rfloor> = n - 1" using assms by (intro floor_unique) (simp_all add: abs_less_iff)
  then show ?thesis using assms False by (simp add: round_half_even_def Let_def abs_less_iff)
qed

lemma overflow_threshold_pow2: "(2::rat) ^ 1023 < overflow_threshold"
  unfolding overflow_threshold_def by (rule power_strict_increasing) simp_all

lemma float_round_cert_tie:
  assumes "2 powi e \<le> \<bar>x\<bar>" "\<bar>x\<bar> < 2 powi (e + 1)" "- 1022 \<le> e" "e \<le> 1022"
    and "round_half_even (x / 2 powi (e - 52)) = n"
  shows "float_round x = Finite (of_int n * 2 powi (e - 52))"
proof -
  have "(0::rat) < 2 powi e" by simp
  with assms(1) have "0 < \<bar>x\<bar>" by linarith
  then have x0: "x \<noteq> 0" by simp
  then have "binade \<bar>x\<bar> = e" using assms(1,2) by (intro binade_unique) simp_all
  then have fq: "float_quantum x = 2 powi (e - 52)"
    using assms(3) by (simp add: float_quantum_def max_def)
  have r: "round_to_precision x = of_int n * 2 powi (e - 52)"
    using x0 by (simp add: round_to_precision_def fq assms(5))
  have "(2::rat) powi (e + 1) \<le> 2 powi 1023" using assms(4) by (intro power_int_increasing) simp_all
  then have "\<bar>x\<bar> \<le> 2 ^ 1023" using assms(2) by (simp del: power_numeral)
  then have "float_round x = Finite (round_to_precision x)"
    using float_round_bounded [OF is_double_pow2 [of 1023]] by simp
  with r show ?thesis by simp
qed

lemma float_round_cert:
  assumes "2 powi e \<le> \<bar>x\<bar>" "\<bar>x\<bar> < 2 powi (e + 1)" "- 1022 \<le> e" "e \<le> 1022"
    and "\<bar>x / 2 powi (e - 52) - of_int n\<bar> < 1 / 2"
  shows "float_round x = Finite (of_int n * 2 powi (e - 52))"
  using assms(1-4) round_half_even_near [OF assms(5)] by (rule float_round_cert_tie)

lemma float_round_08: "float_round (4 / 5) = Finite (3602879701896397 / 4503599627370496)"
  using float_round_cert [of "-1" "4/5" 7205759403792794] by simp

lemma float_round_07: "float_round (7 / 10) = Finite (3152519739159347 / 4503599627370496)"
  using float_round_cert [of "-1" "7/10" 6305039478318694] by simp

lemma is_double_minus: "is_double (- x) = is_double x"
  by (auto simp: is_double_def float_round_def Let_def round_to_precision_minus)

lemma is_double_dyadic_pos:
  assumes "0 < m" "m < 2 ^ 53" "- 1074 \<le> k" "k \<le> 970"
  shows "is_double (of_int m * 2 powi k)"
proof -
  define x where "x = (of_int m :: rat) * 2 powi k"
  define bm where "bm = binade (of_int m)"
  have mpos: "(0::rat) < of_int m" using assms(1) by simp
  have xpos: "0 < x" using assms(1) by (simp add: x_def)
  have bmb: "(2::rat) powi bm \<le> of_int m" "(of_int m :: rat) < 2 powi (bm + 1)"
    using binade_bounds [OF mpos] by (simp_all add: bm_def)
  have "(of_int m :: rat) < of_int (2 ^ 53)" using assms(2) by (simp only: of_int_less_iff)
  then have m53: "(of_int m :: rat) < 2 powi 53" by simp
  have bm52: "bm \<le> 52"
  proof (rule ccontr)
    assume "\<not> bm \<le> 52"
    then have "(2::rat) powi 53 \<le> 2 powi bm" by (intro power_int_increasing) simp_all
    with bmb(1) m53 show False by linarith
  qed
  have lo: "2 powi (bm + k) \<le> x"
    using bmb(1) by (simp add: x_def power_int_add)
  have hi: "x < 2 powi (bm + k + 1)"
  proof -
    have "x < 2 powi (bm + 1) * 2 powi k" using bmb(2) by (simp add: x_def)
    also have "\<dots> = 2 powi (bm + 1 + k)" by (simp add: power_int_add)
    finally show ?thesis by (simp add: add.commute add.left_commute)
  qed
  have bx: "binade x = bm + k" using xpos lo hi by (rule binade_unique)
  define E where "E = max (bm + k) (- 1022)"
  define j where "j = k + 52 - E"
  have j0: "0 \<le> j" using bm52 assms(3) by (simp add: j_def E_def max_def)
  have fq: "float_quantum x = 2 powi (E - 52)"
    using xpos by (simp add: float_quantum_def bx E_def)
  have "(2::rat) powi k = 2 powi (j + (E - 52))" by (simp add: j_def)
  also have "\<dots> = 2 powi j * 2 powi (E - 52)" by (rule power_int_add) simp
  also have "2 powi j = (2::rat) ^ nat j" using j0 by (simp add: power_int_def)
  finally have k: "(2::rat) powi k = 2 ^ nat j * 2 powi (E - 52)" .
  have xq: "x = of_int (m * 2 ^ nat j) * 2 powi (E - 52)"
    by (simp add: x_def k)
  then have "x / 2 powi (E - 52) = of_int (m * 2 ^ nat j)" by simp
  then have "round_to_precision x = of_int (m * 2 ^ nat j) * 2 powi (E - 52)"
    using xpos by (simp only: round_to_precision_def fq round_half_even_of_int) simp
  then have r: "round_to_precision x = x" using xq by simp
  have "(2::rat) powi (bm + k + 1) \<le> 2 powi 1023"
    using bm52 assms(4) by (intro power_int_increasing) simp_all
  then have "x < 2 ^ 1023" using hi by (simp del: power_numeral)
  then have "\<bar>x\<bar> < overflow_threshold" using xpos overflow_threshold_pow2 by simp
  then show ?thesis by (simp add: is_double_def float_round_def Let_def r x_def [symmetric])
qed

lemma is_double_zero [simp]: "is_double 0"
  by (simp add: is_double_def float_round_def round_to_precision_def overflow_threshold_def)

lemma is_double_dyadic:
  assumes "\<bar>m\<bar> < 2 ^ 53" "- 1074 \<le> k" "k \<le> 970"
  shows "is_double (of_int m * 2 powi k)"
proof -
  consider "m = 0" | "0 < m" | "0 < - m" by linarith
  then show ?thesis
  proof cases
    case 1 then show ?thesis by simp
  next
    case 2 then show ?thesis using assms by (intro is_double_dyadic_pos) simp_all
  next
    case 3
    then have "is_double (of_int (- m) * 2 powi k)" using assms by (intro is_double_dyadic_pos) simp_all
    then show ?thesis using is_double_minus [of "of_int m * 2 powi k"] by simp
  qed
qed

lemma float_round_of_int:
  assumes "\<bar>n\<bar> < 2 ^ 53"
  shows "float_round (of_int n) = Finite (of_int n)"
  using is_double_dyadic [OF assms, of 0] by (simp add: is_double_def)

lemma float_round_numeral [simp]:
  "numeral k < (9007199254740992::int) \<Longrightarrow> float_round (numeral k) = Finite (numeral k)"
  using float_round_of_int [of "numeral k"] by simp

lemma float_round_neg_numeral [simp]:
  "numeral k < (9007199254740992::int) \<Longrightarrow> float_round (- numeral k) = Finite (- numeral k)"
  using float_round_of_int [of "- numeral k"] by simp

lemma float_round_0 [simp]: "float_round 0 = Finite 0"
  using float_round_of_int [of 0] by simp

lemma float_round_1 [simp]: "float_round 1 = Finite 1"
  using float_round_of_int [of 1] by simp

lemma float_round_neg_1 [simp]: "float_round (- 1) = Finite (- 1)"
  using float_round_of_int [of "- 1"] by simp

lemma float_round_half: "float_round (1 / 2) = Finite (1 / 2)"
  using is_double_dyadic [of 1 "- 1"] by (simp add: is_double_def)

lemma floor_rat_numeral [simp]: "\<lfloor>numeral a / numeral b :: rat\<rfloor> = numeral a div numeral b"
  by (metis floor_divide_of_int_eq of_int_numeral)

lemma floor_rat_neg_numeral [simp]: "\<lfloor>- (numeral a / numeral b :: rat)\<rfloor> = - numeral a div numeral b"
  by (metis divide_minus_left floor_divide_of_int_eq of_int_neg_numeral of_int_numeral)

lemma ceiling_rat_numeral [simp]: "\<lceil>numeral a / numeral b :: rat\<rceil> = - (- numeral a div numeral b)"
  by (simp add: ceiling_def)

lemma ceiling_rat_neg_numeral [simp]: "\<lceil>- (numeral a / numeral b :: rat)\<rceil> = - (numeral a div numeral b)"
  by (simp add: ceiling_def)

lemmas float_floordiv_eval = float_floordiv_def float_fmod_def snap_to_integral_def float_sub_def Let_def

lemma float_of_int_small: "\<bar>n\<bar> < 2 ^ 53 \<Longrightarrow> float_of_int n = Inr (Finite (of_int n))"
  by (simp add: float_of_int_def float_round_of_int)


lemma float_round_nonneg: "0 \<le> x \<Longrightarrow> float_nonneg (float_round x)"
  using float_round_mono [of 0 x] by (simp add: float_nonneg_def)

lemma float_round_not_nan [simp]: "float_round x \<noteq> NaN"
  by (simp add: float_round_def Let_def)

lemma float_round_overflow:
  assumes "overflow_threshold \<le> x"
  shows "float_round x = PInf"
proof -
  have t: "overflow_threshold = 2 powi 1024" by (simp add: overflow_threshold_def)
  have x: "0 < x" "2 ^ 1024 \<le> x" using assms by (simp_all add: overflow_threshold_def)
  have "binade ((2::rat) ^ 1024) \<le> binade x" using x(2) by (intro binade_mono) simp_all
  then have b: "1024 \<le> binade x" by (simp only: binade_pow2)
  then have "(2::rat) powi 1024 \<le> 2 powi (binade x)" by (intro power_int_increasing) simp_all
  also have "\<dots> \<le> round_to_precision x" using x(1) b by (intro round_to_precision_lower) simp_all
  finally have "overflow_threshold \<le> \<bar>round_to_precision x\<bar>" unfolding t by linarith
  then show ?thesis using x(1) by (simp add: float_round_def Let_def)
qed


lemma float_mul_int_3: "float_mul_int (Finite a) 3 = Inr (float_round (a * 3))"
  by (simp add: float_mul_int_def float_of_int_small)


section \<open>Keyword analysis\<close>

lemma float_literal_08: "float_literal (4 / 5) = 3602879701896397 / 4503599627370496"
  by (simp add: float_literal_def float_round_08)

lemma float_literal_07: "float_literal (7 / 10) = 3152519739159347 / 4503599627370496"
  by (simp add: float_literal_def float_round_07)

lemma int_truediv_9_10: "int_truediv 9 10 = Inr (Finite (8106479329266893 / 9007199254740992))"
  using float_round_cert [of "-1" "9/10" 8106479329266893] by (simp add: int_truediv_def)

lemma int_truediv_5_10: "int_truediv 5 10 = Inr (Finite (1 / 2))"
  by (simp add: int_truediv_def float_round_half)

lemma int_truediv_1_2: "int_truediv 1 2 = Inr (Finite (1 / 2))"
  by (simp add: int_truediv_def float_round_half)

lemma float_mul_10_08: "float_round (18014398509481985 / 2251799813685248) = Finite 8"
  using float_round_cert [of 3 "18014398509481985 / 2251799813685248" 4503599627370496] by simp

lemmas keyword_eval = analyze_single_keyword_def dict_get_def init_agent_def initialize_keyword_database_def
  kd_def determine_action_def get_replacement_suggestions_def replacements_table_def
  default_keyword_data_def lower_def lower_char_def strip_def is_space_def Let_def
  float_literal_07 float_literal_08 float_gt_def

lemma analyze_satire:
  "analyze_single_keyword init_agent ''satire'' 9 10 =
     Inr \<lparr>keyword = ''satire'', frequency_across_listings = 9, estimated_competition = ''Low'',
          relevance_score = PyFloat (Finite 8), replacement_suggestions = [],
          action_recommendation = ''Keep'', reasoning = StrongPerformer 10 ''rising''\<rparr>"
  by (simp add: keyword_eval int_truediv_9_10 float_of_int_small float_mul_10_08)

lemma analyze_beautiful:
  "analyze_single_keyword init_agent ''beautiful'' 5 10 =
     Inr \<lparr>keyword = ''beautiful'', frequency_across_listings = 5, estimated_competition = ''High'',
          relevance_score = PyInt 2, replacement_suggestions = [],
          action_recommendation = ''Remove'', reasoning = LowRelevance 2\<rparr>"
  by (simp add: keyword_eval int_truediv_5_10)

lemma analyze_resist:
  "analyze_single_keyword init_agent ''resist'' 1 2 =
     Inr \<lparr>keyword = ''resist'', frequency_across_listings = 1, estimated_competition = ''High'',
          relevance_score = PyInt 9, replacement_suggestions = [''resistance gear'', ''activist'', ''dissent''],
          action_recommendation = ''Keep'', reasoning = StrongPerformer 9 ''stable''\<rparr>"
  by (simp add: keyword_eval int_truediv_1_2)

lemma analyze_resist_space:
  "analyze_single_keyword init_agent '' resist'' 1 2 =
     Inr \<lparr>keyword = '' resist'', frequency_across_listings = 1, estimated_competition = ''High'',
          relevance_score = PyInt 9, replacement_suggestions = [''resistance gear'', ''activist'', ''dissent''],
          action_recommendation = ''Keep'', reasoning = StrongPerformer 9 ''stable''\<rparr>"
  by (simp add: keyword_eval int_truediv_1_2)

lemma catalog_relevance_bounds:
  assumes "map_of initialize_keyword_database k = Some d"
  shows "2 \<le> relevance d \<and> relevance d \<le> 10"
proof -
  have "(k, d) \<in> set initialize_keyword_database" using assms by (rule map_of_SomeD)
  then show ?thesis by (auto simp: initialize_keyword_database_def kd_def)
qed

lemma analyze_zero_total: "analyze_single_keyword self kw f 0 = Inl ZeroDivisionError"
  by (simp add: analyze_single_keyword_def int_truediv_def Let_def)

lemma int_truediv_finite:
  assumes "int_truediv f t = Inr ratio"
  shows "\<exists>r. ratio = Finite r"
proof (cases "float_round (of_int f / of_int t)")
  case (Finite r)
  then have "ratio = Finite r" using assms by (simp add: int_truediv_def split: if_splits)
  then show ?thesis by blast
qed (use assms in \<open>simp_all add: int_truediv_def split: if_splits\<close>)

lemma int_truediv_returns:
  assumes "t \<noteq> 0" "\<bar>f\<bar> \<le> 2 ^ 1023 * \<bar>t\<bar>"
  shows "\<exists>r. int_truediv f t = Inr (Finite r)"
proof -
  have "\<bar>(of_int f :: rat) / of_int t\<bar> = of_int \<bar>f\<bar> / of_int \<bar>t\<bar>" by simp
  also have "\<dots> \<le> of_int (2 ^ 1023 * \<bar>t\<bar>) / of_int \<bar>t\<bar>"
    using assms by (intro divide_right_mono) (simp_all only: of_int_le_iff of_int_0_le_iff abs_ge_zero)
  also have "\<dots> = 2 ^ 1023" using assms(1) by (simp del: power_numeral)
  finally have "\<bar>(of_int f :: rat) / of_int t\<bar> \<le> 2 ^ 1023" .
  then have "float_round (of_int f / of_int t) = Finite (round_to_precision (of_int f / of_int t))"
    using float_round_bounded [OF is_double_pow2 [of 1023]] by simp
  then show ?thesis using assms(1) by (simp add: int_truediv_def)
qed

lemma init_agent_relevance:
  "2 \<le> relevance (dict_get (keyword_performance_db init_agent) k default_keyword_data)
   \<and> relevance (dict_get (keyword_performance_db init_agent) k default_keyword_data) \<le> 10"
proof (cases "map_of initialize_keyword_database k")
  case None
  then show ?thesis by (simp add: dict_get_def init_agent_def default_keyword_data_def)
next
  case (Some d)
  then show ?thesis using catalog_relevance_bounds [OF Some] by (simp add: dict_get_def init_agent_def)
qed

lemma float_of_int_relevance:
  "float_of_int (relevance (dict_get (keyword_performance_db init_agent) k default_keyword_data))
     = Inr (Finite (of_int (relevance (dict_get (keyword_performance_db init_agent) k default_keyword_data))))"
  using init_agent_relevance [of k] by (intro float_of_int_small) simp

lemma analyze_init_agent:
  assumes "int_truediv f t = Inr ratio"
  shows "analyze_single_keyword init_agent kw f t =
     (let keyword_clean = strip (lower kw);
          keyword_data = dict_get (keyword_performance_db init_agent) keyword_clean default_keyword_data
      in Inr \<lparr>keyword = kw, frequency_across_listings = f,
               estimated_competition = competition keyword_data,
               relevance_score =
                 (if float_gt ratio (Finite (float_literal (7 / 10)))
                  then PyFloat (float_mul (Finite (of_int (relevance keyword_data))) (Finite (float_literal (8 / 10))))
                  else PyInt (relevance keyword_data)),
               replacement_suggestions = get_replacement_suggestions keyword_clean,
               action_recommendation = fst (determine_action keyword_clean keyword_data ratio),
               reasoning = snd (determine_action keyword_clean keyword_data ratio)\<rparr>)"
  using assms
  by (simp add: analyze_single_keyword_def Let_def float_of_int_relevance split_beta del: float_mul.simps)

lemma determine_action_low_relevance:
  "relevance d \<le> 3 \<Longrightarrow> fst (determine_action k d ratio) = ''Remove''"
  by (simp add: determine_action_def Let_def)

text \<open>
  C1, as amended.  The keyword \<open>satire\<close> (catalog relevance 10, competition Low, trend
  rising) assessed with frequency 9 of 10 listings gets the overuse penalty, so its
  adjusted relevance is \<open>8.0\<close>; the recommended action is \<open>Keep\<close>, because the action
  rules test the catalog relevance 10, not the adjusted one.
\<close>

theorem satire_overused_is_kept:
  "\<exists>a. analyze_single_keyword init_agent ''satire'' 9 10 = Inr a
     \<and> relevance_score a = PyFloat (Finite 8) \<and> action_recommendation a = ''Keep''"
  by (simp add: analyze_satire)

text \<open>C1 as stated fails: no assessment of that input recommends \<open>Replace\<close>.\<close>

theorem satire_overused_not_replaced:
  "\<not> (\<exists>a. analyze_single_keyword init_agent ''satire'' 9 10 = Inr a
     \<and> relevance_score a = PyFloat (Finite 8) \<and> action_recommendation a = ''Replace'')"
  by (simp add: analyze_satire)

text \<open>
  C2, as amended.  For every keyword, every \<open>total_listings > 0\<close> and every frequency
  with \<open>|frequency| \<le> 2^1023 * total_listings\<close> (so whenever
  \<open>0 \<le> frequency \<le> total_listings\<close>) the assessment is produced without raising.
\<close>

theorem assess_returns:
  assumes "0 < t" "\<bar>f\<bar> \<le> 2 ^ 1023 * t"
  shows "\<exists>a. analyze_single_keyword init_agent kw f t = Inr a"
proof -
  from assms obtain r where "int_truediv f t = Inr (Finite r)"
    using int_truediv_returns [of t f] by auto
  then show ?thesis by (simp add: analyze_init_agent Let_def)
qed

theorem assess_returns_witness:
  "(0::int) < 10 \<and> \<bar>5::int\<bar> \<le> 2 ^ 1023 * 10
    \<and> (\<exists>a. analyze_single_keyword init_agent ''beautiful'' 5 10 = Inr a)"
  using assess_returns [where t = 10 and f = 5 and kw = "''beautiful''"] by simp

text \<open>
  C2 as stated fails: frequency 0 with 0 listings satisfies the input constraint, and
  the division raises.
\<close>

theorem assess_zero_listings_raises:
  "analyze_single_keyword init_agent ''satire'' 0 0 = Inl ZeroDivisionError"
  by (rule analyze_zero_total)

lemma int_truediv_overflow: "int_truediv (2 ^ 1024) 1 = Inl OverflowError"
proof -
  have "float_round (2 ^ 1024) = PInf"
    by (rule float_round_overflow) (simp add: overflow_threshold_def)
  then show ?thesis by (simp add: int_truediv_def)
qed

lemma analyze_raises:
  "int_truediv f t = Inl e \<Longrightarrow> analyze_single_keyword self kw f t = Inl e"
  by (simp add: analyze_single_keyword_def Let_def)

text \<open>
  C7, as amended.  For every keyword, every \<open>total_listings > 0\<close> and every frequency
  with \<open>|frequency| \<le> 2^1023 * total_listings\<close>, the ratio
  \<open>frequency / total_listings\<close> is a float and the assessment is produced; its adjusted
  relevance is the catalog relevance (5 for an unknown keyword) times \<open>0.8\<close> when the
  ratio exceeds \<open>0.7\<close>, and the catalog relevance itself otherwise.  In particular
  \<open>beautiful\<close> in 5 of 10 listings has adjusted relevance 2 and action \<open>Remove\<close>.
\<close>

theorem adjusted_relevance_rule:
  assumes "0 < t" "\<bar>f\<bar> \<le> 2 ^ 1023 * t"
  shows "(\<exists>ratio a. int_truediv f t = Inr ratio
            \<and> analyze_single_keyword init_agent kw f t = Inr a
            \<and> relevance_score a =
                (if float_gt ratio (Finite (float_literal (7 / 10)))
                 then PyFloat (float_mul
                        (Finite (of_int (relevance (dict_get (keyword_performance_db init_agent)
                                                      (strip (lower kw)) default_keyword_data))))
                        (Finite (float_literal (8 / 10))))
                 else PyInt (relevance (dict_get (keyword_performance_db init_agent)
                                          (strip (lower kw)) default_keyword_data))))
       \<and> (\<exists>b. analyze_single_keyword init_agent ''beautiful'' 5 10 = Inr b
            \<and> relevance_score b = PyInt 2 \<and> action_recommendation b = ''Remove'')"
proof -
  from assms obtain r where r: "int_truediv f t = Inr (Finite r)"
    using int_truediv_returns [of t f] by auto
  then show ?thesis
    by (simp add: analyze_init_agent Let_def analyze_beautiful del: float_mul.simps)
qed

theorem adjusted_relevance_rule_witness:
  "(0::int) < 10 \<and> \<bar>9::int\<bar> \<le> 2 ^ 1023 * 10
    \<and> int_truediv 9 10 = Inr (Finite (8106479329266893 / 9007199254740992))
    \<and> (\<exists>a. analyze_single_keyword init_agent ''satire'' 9 10 = Inr a
            \<and> relevance_score a = PyFloat (Finite 8))"
  using adjusted_relevance_rule [where t = 10 and f = 9 and kw = "''satire''"]
  by (simp add: int_truediv_9_10 analyze_satire)

text \<open>
  C7 as stated fails: with one listing and the frequency \<open>2^1024\<close> the ratio is beyond
  the float range, the division raises, and there is no adjusted relevance.
\<close>

theorem adjusted_relevance_overflow:
  "(0::int) < 1 \<and> analyze_single_keyword init_agent ''satire'' (2 ^ 1024) 1 = Inl OverflowError"
  using analyze_raises [OF int_truediv_overflow] by simp

text \<open>
  C8, as amended.  For a keyword whose catalog relevance is at most 3, every
  \<open>total_listings > 0\<close> and every frequency with
  \<open>|frequency| \<le> 2^1023 * total_listings\<close>, the assessment is produced and
  recommends \<open>Remove\<close>.
\<close>

theorem low_relevance_removed:
  assumes "0 < t" "\<bar>f\<bar> \<le> 2 ^ 1023 * t"
    and "relevance (dict_get (keyword_performance_db init_agent) (strip (lower kw)) default_keyword_data) \<le> 3"
  shows "\<exists>a. analyze_single_keyword init_agent kw f t = Inr a \<and> action_recommendation a = ''Remove''"
proof -
  from assms(1,2) obtain r where r: "int_truediv f t = Inr (Finite r)"
    using int_truediv_returns [of t f] by auto
  then show ?thesis
    using assms(3) by (simp add: analyze_init_agent Let_def determine_action_low_relevance)
qed

theorem low_relevance_removed_witness:
  "(0::int) < 2 \<and> \<bar>1::int\<bar> \<le> 2 ^ 1023 * 2
    \<and> relevance (dict_get (keyword_performance_db init_agent) (strip (lower (CHR 0xA0 # ''Awesome ''))) default_keyword_data) \<le> 3
    \<and> (\<exists>a. analyze_single_keyword init_agent (CHR 0xA0 # ''Awesome '') 1 2 = Inr a \<and> action_recommendation a = ''Remove'')"
proof -
  have k: "strip (lower (CHR 0xA0 # ''Awesome '')) = ''awesome''"
    by code_simp
  have r: "relevance (dict_get (keyword_performance_db init_agent) (strip (lower (CHR 0xA0 # ''Awesome ''))) default_keyword_data) \<le> 3"
    unfolding k by (simp add: dict_get_def init_agent_def initialize_keyword_database_def kd_def)
  show ?thesis
    using r low_relevance_removed [where t = 2 and f = 1 and kw = "CHR 0xA0 # ''Awesome ''"]
    by simp
qed

text \<open>
  C8 as stated fails: \<open>beautiful\<close> has catalog relevance 2, and with one listing and
  the frequency \<open>2^1024\<close> the division raises instead of recommending \<open>Remove\<close>.
\<close>

theorem low_relevance_overflow:
  "relevance (dict_get (keyword_performance_db init_agent) (strip (lower ''beautiful'')) default_keyword_data) \<le> 3
   \<and> (0::int) < 1
   \<and> analyze_single_keyword init_agent ''beautiful'' (2 ^ 1024) 1 = Inl OverflowError"
  using analyze_raises [OF int_truediv_overflow, of init_agent "''beautiful''"]
  by (simp add: keyword_eval)

text \<open>
  C10, as amended.  The replacement suggestions of every assessment are the entry of
  the fixed table for the lower-cased and stripped keyword (the empty list when the
  table has none), whatever the recommended action; \<open>resist\<close> is kept and has
  suggestions.
\<close>

theorem suggestions_from_table:
  assumes "analyze_single_keyword self kw f t = Inr a"
  shows "replacement_suggestions a = dict_get replacements_table (strip (lower kw)) []
       \<and> (\<exists>b. analyze_single_keyword init_agent ''resist'' 1 2 = Inr b
            \<and> action_recommendation b = ''Keep'' \<and> replacement_suggestions b \<noteq> [])"
proof
  obtain ratio score where "a = \<lparr>keyword = kw, frequency_across_listings = f,
      estimated_competition = competition (dict_get (keyword_performance_db self) (strip (lower kw)) default_keyword_data),
      relevance_score = score,
      replacement_suggestions = get_replacement_suggestions (strip (lower kw)),
      action_recommendation = fst (determine_action (strip (lower kw))
         (dict_get (keyword_performance_db self) (strip (lower kw)) default_keyword_data) ratio),
      reasoning = snd (determine_action (strip (lower kw))
         (dict_get (keyword_performance_db self) (strip (lower kw)) default_keyword_data) ratio)\<rparr>"
    using assms unfolding analyze_single_keyword_def Let_def split_beta
    by (auto split: sum.splits)
  then show "replacement_suggestions a = dict_get replacements_table (strip (lower kw)) []"
    by (simp add: get_replacement_suggestions_def)
  show "\<exists>b. analyze_single_keyword init_agent ''resist'' 1 2 = Inr b
            \<and> action_recommendation b = ''Keep'' \<and> replacement_suggestions b \<noteq> []"
    by (simp add: analyze_resist)
qed

lemma analyze_resist_nbsp:
  "analyze_single_keyword init_agent (CHR 0xA0 # ''resist'') 1 2 =
     Inr \<lparr>keyword = CHR 0xA0 # ''resist'', frequency_across_listings = 1, estimated_competition = ''High'',
          relevance_score = PyInt 9, replacement_suggestions = [''resistance gear'', ''activist'', ''dissent''],
          action_recommendation = ''Keep'', reasoning = StrongPerformer 9 ''stable''\<rparr>"
  by (simp add: keyword_eval int_truediv_1_2)

theorem suggestions_from_table_witness:
  "(\<exists>a. analyze_single_keyword init_agent (CHR 0xA0 # ''resist'') 1 2 = Inr a
      \<and> replacement_suggestions a = dict_get replacements_table (strip (lower (CHR 0xA0 # ''resist''))) []
      \<and> replacement_suggestions a = [''resistance gear'', ''activist'', ''dissent''])"
  using suggestions_from_table [OF analyze_resist_nbsp] by (simp add: analyze_resist_nbsp)

text \<open>
  C10 as stated fails: a keyword with a leading blank is stripped before the table is
  read, so its suggestions are not the entry of the merely lower-cased keyword.
\<close>

theorem suggestions_not_lowercase_only:
  "map_sum id replacement_suggestions (analyze_single_keyword init_agent '' resist'' 1 2)
     = Inr [''resistance gear'', ''activist'', ''dissent'']
   \<and> get_replacement_suggestions (lower '' resist'') = []"
proof
  show "map_sum id replacement_suggestions (analyze_single_keyword init_agent '' resist'' 1 2)
     = Inr [''resistance gear'', ''activist'', ''dissent'']"
    by (simp add: analyze_resist_space)
  show "get_replacement_suggestions (lower '' resist'') = []"
    by (simp add: get_replacement_suggestions_def dict_get_def replacements_table_def lower_def lower_char_def)
qed

section \<open>Market research\<close>

lemma is_opportunity_feasible_iff:
  "is_opportunity_feasible self d \<longleftrightarrow>
     \<not> (category d \<in> set (excluded_categories (config self))
        \<or> set (resource_requirements d) \<inter> tools_not_available (capability_profile self) \<noteq> {}
        \<or> (learning_capacity (capability_profile self) = ''Low''
            \<and> 1 < card (set (skill_requirements d) - skills (capability_profile self))))"
proof -
  have "\<not> set (skill_requirements d) \<subseteq> skills (capability_profile self)"
    if "1 < card (set (skill_requirements d) - skills (capability_profile self))"
  proof
    assume "set (skill_requirements d) \<subseteq> skills (capability_profile self)"
    then have "set (skill_requirements d) - skills (capability_profile self) = {}" by blast
    with that show False by simp
  qed
  then show ?thesis unfolding is_opportunity_feasible_def Let_def by auto
qed

lemma create_market_opportunity_fields:
  assumes "create_market_opportunity self d = Inr x"
  shows "opp_data.truncate x = d"
    and "effort_score x = calculate_effort_score self d"
    and "calculate_impact_score d = Inr (impact_score x)"
    and "confidence_score x = calculate_confidence_score self d"
    and "timeline x = determine_timeline (effort_score x) d"
  using assms
  by (auto simp: create_market_opportunity_def Let_def opp_data.defs MarketOpportunity.defs split: sum.splits)

lemma research_loop_truncate:
  "research_loop self ds = Inr opps \<Longrightarrow> map opp_data.truncate opps = filter (is_opportunity_feasible self) ds"
proof (induction ds arbitrary: opps)
  case Nil
  then show ?case by simp
next
  case (Cons d ds)
  then show ?case
    by (auto split: if_splits sum.splits dest: create_market_opportunity_fields(1))
qed

lemma research_loop_created:
  "research_loop self ds = Inr opps \<Longrightarrow> x \<in> set opps \<Longrightarrow> \<exists>d. create_market_opportunity self d = Inr x"
proof (induction ds arbitrary: opps)
  case Nil
  then show ?case by simp
next
  case (Cons d ds)
  then show ?case by (auto split: if_splits sum.splits)
qed

lemma priority_keys_snd: "priority_keys opps = Inr ks \<Longrightarrow> map snd ks = opps"
  by (induction opps arbitrary: ks) (auto split: sum.splits)

lemma mset_insert_descending: "mset (insert_descending x ys) = add_mset x (mset ys)"
  by (induction ys) simp_all

lemma mset_sorted_reverse: "mset (sorted_reverse ks) = mset (map snd ks)"
proof -
  have "mset (foldr insert_descending ks []) = mset ks"
    by (induction ks) (simp_all add: mset_insert_descending)
  then show ?thesis by (metis mset_map sorted_reverse_def)
qed

lemma research_opportunities_mset:
  assumes "research_opportunities self ds = Inr out"
  shows "\<exists>opps. research_loop self ds = Inr opps \<and> mset out = mset opps"
  using assms
  by (auto simp: research_opportunities_def mset_sorted_reverse dest: priority_keys_snd split: sum.splits)

lemma determine_timeline_names: "determine_timeline e d \<in> set timeline_names"
  by (simp add: determine_timeline_def timeline_names_def)

lemma categorize_buckets:
  assumes "distinct (map fst c)" "\<forall>x \<in> set opps. timeline x \<in> fst ` set c"
  shows "\<exists>c'. categorize opps c = Inr c' \<and> map fst c' = map fst c
     \<and> (\<forall>t xs. map_of c t = Some xs \<longrightarrow> map_of c' t = Some (xs @ filter (\<lambda>x. timeline x = t) opps))"
  using assms
proof (induction opps arbitrary: c)
  case Nil
  then show ?case by simp
next
  case (Cons x opps)
  from Cons.prems(2) have tin: "timeline x \<in> fst ` set c" by simp
  then obtain xs where xs: "map_of c (timeline x) = Some xs"
    by (metis domD dom_map_of_conv_image_fst)
  define c1 where "c1 = AList.update (timeline x) (xs @ [x]) c"
  have k1: "map fst c1 = map fst c" using tin by (simp add: c1_def update_keys)
  then have d1: "distinct (map fst c1)" using Cons.prems(1) by simp
  have in1: "\<forall>y \<in> set opps. timeline y \<in> fst ` set c1"
    using Cons.prems(2) k1 by (metis list.set_intros(2) set_map)
  from Cons.IH [OF d1 in1] obtain c' where c': "categorize opps c1 = Inr c'" "map fst c' = map fst c1"
    "\<forall>t ys. map_of c1 t = Some ys \<longrightarrow> map_of c' t = Some (ys @ filter (\<lambda>x. timeline x = t) opps)"
    by blast
  have "\<forall>t ys. map_of c t = Some ys \<longrightarrow> map_of c' t = Some (ys @ filter (\<lambda>y. timeline y = t) (x # opps))"
  proof (intro allI impI)
    fix t ys assume t: "map_of c t = Some ys"
    show "map_of c' t = Some (ys @ filter (\<lambda>y. timeline y = t) (x # opps))"
    proof (cases "t = timeline x")
      case True
      then have "map_of c1 t = Some (xs @ [x])" by (simp add: c1_def update_conv')
      with c'(3) True t xs show ?thesis by simp
    next
      case False
      then have "map_of c1 t = Some ys" using t by (simp add: c1_def update_conv')
      with c'(3) False show ?thesis by auto
    qed
  qed
  then show ?case using xs c'(1,2) k1 by (simp add: c1_def)
qed

lemma float_round_12: "float_round (6 / 5) = Finite (5404319552844595 / 4503599627370496)"
  using float_round_cert [of "0" "6 / 5" 5404319552844595] by simp

lemma float_round_12_3: "float_round (16212958658533785 / 4503599627370496) = Finite (2026619832316723 / 562949953421312)"
  using float_round_cert_tie [of "1" "16212958658533785 / 4503599627370496" 8106479329266892] by (simp add: round_half_even_def)

lemma float_round_21: "float_round (21 / 10) = Finite (4728779608739021 / 2251799813685248)"
  using float_round_cert [of "1" "21 / 10" 4728779608739021] by simp

lemma float_round_21_2: "float_round (4728779608739021 / 1125899906842624) = Finite (4728779608739021 / 1125899906842624)"
  using float_round_cert [of "2" "4728779608739021 / 1125899906842624" 4728779608739021] by simp

lemma float_round_21_2_4: "float_round (4728779608739021 / 281474976710656) = Finite (4728779608739021 / 281474976710656)"
  using float_round_cert [of "4" "4728779608739021 / 281474976710656" 4728779608739021] by simp

lemma float_round_21_2_4_2: "float_round (4728779608739021 / 562949953421312) = Finite (4728779608739021 / 562949953421312)"
  using float_round_cert [of "3" "4728779608739021 / 562949953421312" 4728779608739021] by simp

lemma float_round_32: "float_round (16 / 5) = Finite (3602879701896397 / 1125899906842624)"
  using float_round_cert [of "1" "16 / 5" 7205759403792794] by simp

lemma float_round_32_1: "float_round (3602879701896397 / 1125899906842624) = Finite (3602879701896397 / 1125899906842624)"
  using float_round_cert [of "1" "3602879701896397 / 1125899906842624" 7205759403792794] by simp

lemma float_round_32_1_3: "float_round (10808639105689191 / 1125899906842624) = Finite (1351079888211149 / 140737488355328)"
  using float_round_cert_tie [of "3" "10808639105689191 / 1125899906842624" 5404319552844596] by (simp add: round_half_even_def)

lemma float_round_32_1_3_3: "float_round (1351079888211149 / 422212465065984) = Finite (7205759403792795 / 2251799813685248)"
  using float_round_cert [of "1" "1351079888211149 / 422212465065984" 7205759403792795] by simp

lemma float_round_9_2: "float_round (9 / 2) = Finite (9 / 2)"
  using float_round_cert [of "2" "9 / 2" 5066549580791808] by simp

lemma float_round_25_2: "float_round (25 / 2) = Finite (25 / 2)"
  using float_round_cert [of "3" "25 / 2" 7036874417766400] by simp

lemma float_round_35_4: "float_round (35 / 4) = Finite (35 / 4)"
  using float_round_cert [of "3" "35 / 4" 4925812092436480] by simp

lemma float_round_3_2: "float_round (3 / 2) = Finite (3 / 2)"
  using float_round_cert [of "0" "3 / 2" 6755399441055744] by simp

lemma float_round_13: "float_round (13 / 10) = Finite (5854679515581645 / 4503599627370496)"
  using float_round_cert [of "0" "13 / 10" 5854679515581645] by simp


lemma float_literal_12: "float_literal (6 / 5) = 5404319552844595 / 4503599627370496"
  by (simp add: float_literal_def float_round_12)

lemma float_literal_exact: "float_literal (25 / 2) = 25 / 2" "float_literal (35 / 4) = 35 / 4"
  "float_literal (3 / 2) = 3 / 2" "float_literal 15 = 15" "float_literal 1 = 1" "float_literal 35 = 35"
  by (simp_all add: float_literal_def float_round_25_2 float_round_35_4 float_round_3_2)

lemmas market_eval = research_market_opportunities_def research_opportunities_def potential_opportunities_def
  init_researcher_def default_config_def load_capability_profile_def is_opportunity_feasible_def
  create_market_opportunity_def calculate_effort_score_def calculate_impact_score_def
  calculate_confidence_score_def determine_timeline_def calculate_priority_score_def
  competition_penalty_def float_floordiv_eval float_mul_int_def float_truediv_int_def float_truediv_def
  int_truediv_def float_of_int_small sorted_reverse_def opp_data.defs MarketOpportunity.defs
  float_literal_12 float_literal_exact

lemma loop_real:
  "map_sum id (map (\<lambda>x. (name x, effort_score x, impact_score x, confidence_score x, timeline x)))
     (research_loop init_researcher potential_opportunities)
   = Inr [(''Digital Planning Printables'', 2, 2, 5, ''Quick Win''),
          (''Custom Wedding Stickers'', 3, 1, 3, ''Weekend Project''),
          (''Handmade Baby Bibs'', 2, 2, 4, ''Quick Win'')]"
  by (simp add: market_eval float_round_12_3 float_round_9_2)

lemma research_real:
  "\<exists>out. research_opportunities init_researcher potential_opportunities = Inr out
     \<and> map (\<lambda>x. (name x, effort_score x, impact_score x, confidence_score x, timeline x)) out
        = [(''Digital Planning Printables'', 2, 2, 5, ''Quick Win''),
           (''Handmade Baby Bibs'', 2, 2, 4, ''Quick Win''),
           (''Custom Wedding Stickers'', 3, 1, 3, ''Weekend Project'')]"
  by (simp add: market_eval float_round_12_3 float_round_9_2 float_round_21 float_round_21_2
        float_round_21_2_4 float_round_21_2_4_2 float_round_32 float_round_32_1 float_round_32_1_3
        float_round_32_1_3_3)

lemma feasible_real:
  "map name (filter (is_opportunity_feasible init_researcher) potential_opportunities)
     = [''Digital Planning Printables'', ''Custom Wedding Stickers'', ''Handmade Baby Bibs'']"
  by (simp add: potential_opportunities_def init_researcher_def default_config_def
        load_capability_profile_def is_opportunity_feasible_def)

text \<open>
  C3, as amended.  A candidate passes the feasibility check exactly when its category
  is not excluded, none of its required tools is unavailable, and it is not the case
  that the learning capacity is Low with more than one required skill missing.  When
  the research run returns (no scoring raised), its scored output holds the feasible
  candidates, each once and scored, and no other.
\<close>

theorem infeasible_excluded:
  assumes "research_opportunities self ds = Inr out"
  shows "(\<forall>d. is_opportunity_feasible self d \<longleftrightarrow>
            \<not> (category d \<in> set (excluded_categories (config self))
               \<or> set (resource_requirements d) \<inter> tools_not_available (capability_profile self) \<noteq> {}
               \<or> (learning_capacity (capability_profile self) = ''Low''
                   \<and> 1 < card (set (skill_requirements d) - skills (capability_profile self)))))
       \<and> mset (map opp_data.truncate out) = mset (filter (is_opportunity_feasible self) ds)
       \<and> (\<forall>x \<in> set out. create_market_opportunity self (opp_data.truncate x) = Inr x)"
proof (intro conjI allI ballI)
  fix d
  show "is_opportunity_feasible self d \<longleftrightarrow>
            \<not> (category d \<in> set (excluded_categories (config self))
               \<or> set (resource_requirements d) \<inter> tools_not_available (capability_profile self) \<noteq> {}
               \<or> (learning_capacity (capability_profile self) = ''Low''
                   \<and> 1 < card (set (skill_requirements d) - skills (capability_profile self))))"
    by (rule is_opportunity_feasible_iff)
next
  from research_opportunities_mset [OF assms] obtain opps
    where opps: "research_loop self ds = Inr opps" "mset out = mset opps" by blast
  have "mset (map opp_data.truncate out) = mset (map opp_data.truncate opps)"
    using opps(2) by (metis mset_map)
  then show "mset (map opp_data.truncate out) = mset (filter (is_opportunity_feasible self) ds)"
    using research_loop_truncate [OF opps(1)] by simp
  fix x assume "x \<in> set out"
  then have "x \<in> set opps" using opps(2) by (metis set_mset_mset)
  then obtain d where d: "create_market_opportunity self d = Inr x"
    using research_loop_created [OF opps(1)] by blast
  then show "create_market_opportunity self (opp_data.truncate x) = Inr x"
    using create_market_opportunity_fields(1) [OF d] by simp
qed

theorem infeasible_excluded_witness:
  "\<exists>out. research_opportunities init_researcher potential_opportunities = Inr out
     \<and> mset (map opp_data.truncate out) = mset (filter (is_opportunity_feasible init_researcher) potential_opportunities)
     \<and> mset (map name out) = mset [''Digital Planning Printables'', ''Custom Wedding Stickers'', ''Handmade Baby Bibs'']
     \<and> \<not> is_opportunity_feasible init_researcher (potential_opportunities ! 3)"
proof -
  from research_real obtain out
    where out: "research_opportunities init_researcher potential_opportunities = Inr out"
      and names: "map name out = [''Digital Planning Printables'', ''Handmade Baby Bibs'', ''Custom Wedding Stickers'']"
    by auto
  have nf: "\<not> is_opportunity_feasible init_researcher (potential_opportunities ! 3)"
    by (simp add: potential_opportunities_def init_researcher_def default_config_def
        load_capability_profile_def is_opportunity_feasible_def)
  from infeasible_excluded [OF out] names nf out show ?thesis by auto
qed

text \<open>
  C3 as stated fails: a candidate that meets none of the three conditions, but whose
  seasonal factor is beyond the float range when tripled, makes its scoring raise; the
  loop does not catch the error, so neither it nor the three feasible candidates before
  it are included.
\<close>

theorem feasible_candidate_aborts_run:
  "(let d = \<lparr>name = ''Festival Banner'', category = ''printables'', search_volume = 2000,
             competition_level = ''Low'', avg_price = 15, seasonal_factor = 2 ^ 1023,
             keywords' = [], skill_requirements = [''digital_design''],
             resource_requirements = [''printer'']\<rparr>
    in is_double (seasonal_factor d)
       \<and> is_opportunity_feasible init_researcher d
       \<and> map name (filter (is_opportunity_feasible init_researcher) (potential_opportunities @ [d]))
           = [''Digital Planning Printables'', ''Custom Wedding Stickers'', ''Handmade Baby Bibs'',
              ''Festival Banner'']
       \<and> research_opportunities init_researcher (potential_opportunities @ [d]) = Inl OverflowError)"
proof -
  define d where "d = \<lparr>name = ''Festival Banner'', category = ''printables'', search_volume = 2000,
             competition_level = ''Low'', avg_price = 15, seasonal_factor = 2 ^ 1023,
             keywords' = [], skill_requirements = [''digital_design''],
             resource_requirements = [''printer'']\<rparr>"
  have "is_double (2 ^ 1023)" by (rule is_double_pow2) simp
  then have s: "is_double (seasonal_factor d)" by (simp add: d_def)
  have f: "is_opportunity_feasible init_researcher d"
    by (simp add: d_def init_researcher_def default_config_def load_capability_profile_def
          is_opportunity_feasible_def)
  have n: "map name (filter (is_opportunity_feasible init_researcher) (potential_opportunities @ [d]))
           = [''Digital Planning Printables'', ''Custom Wedding Stickers'', ''Handmade Baby Bibs'',
              ''Festival Banner'']"
    using f feasible_real by (simp add: d_def)
  have "float_round (2 ^ 1023 * 3) = PInf"
    by (rule float_round_overflow) (simp add: overflow_threshold_def)
  then have "calculate_impact_score d = Inl OverflowError"
    by (simp add: d_def calculate_impact_score_def float_mul_int_3 float_floordiv_eval)
  then have c: "create_market_opportunity init_researcher d = Inl OverflowError"
    by (simp add: create_market_opportunity_def Let_def)
  have l: "research_loop self (ds @ [d]) = Inl e"
    if "create_market_opportunity self d = Inl e" "is_opportunity_feasible self d"
      "research_loop self ds = Inr opps" for self ds e opps
    using that by (induction ds arbitrary: opps) (auto split: sum.splits if_splits)
  from research_real obtain out
    where "research_opportunities init_researcher potential_opportunities = Inr out" by auto
  from research_opportunities_mset [OF this] obtain opps
    where "research_loop init_researcher potential_opportunities = Inr opps" by blast
  from l [OF c f this]
  have "research_opportunities init_researcher (potential_opportunities @ [d]) = Inl OverflowError"
    by (simp add: research_opportunities_def)
  with s f n show ?thesis unfolding Let_def d_def [symmetric] by simp
qed

lemma determine_timeline_indep: "determine_timeline e d = determine_timeline e d'"
  by (simp add: determine_timeline_def)

lemma research_timelines:
  assumes "research_opportunities self ds = Inr opps" "x \<in> set opps"
  shows "timeline x = determine_timeline (effort_score x) d"
proof -
  from research_opportunities_mset [OF assms(1)] obtain l
    where l: "research_loop self ds = Inr l" "mset opps = mset l" by blast
  from assms(2) l(2) have "x \<in> set l" by (metis set_mset_mset)
  then obtain d0 where "create_market_opportunity self d0 = Inr x"
    using research_loop_created [OF l(1)] by blast
  then have "timeline x = determine_timeline (effort_score x) d0"
    by (rule create_market_opportunity_fields(5))
  then show ?thesis using determine_timeline_indep by simp
qed

lemma map_of_empty_categorized:
  "map_of empty_categorized t = (if t \<in> set timeline_names then Some [] else None)"
  by (simp add: empty_categorized_def timeline_names_def)

text \<open>
  C9.  The timeline is a function of the effort score alone (at most 2: Quick Win; 3:
  Weekend Project; 4: Major Initiative; 5 and above: Long-term Strategy), and the
  grouping of the scored opportunities puts each of them into exactly one of the four
  buckets, the one of its effort score.
\<close>

theorem timeline_buckets:
  assumes "research_opportunities self ds = Inr opps"
  shows "(e \<le> 2 \<longrightarrow> determine_timeline e d = ''Quick Win'')
       \<and> (e = 3 \<longrightarrow> determine_timeline e d = ''Weekend Project'')
       \<and> (e = 4 \<longrightarrow> determine_timeline e d = ''Major Initiative'')
       \<and> (5 \<le> e \<longrightarrow> determine_timeline e d = ''Long-term Strategy'')
       \<and> (\<exists>c. categorized_opportunities opps = Inr c
              \<and> map fst c = timeline_names
              \<and> (\<forall>t \<in> set timeline_names.
                    map_of c t = Some (filter (\<lambda>x. determine_timeline (effort_score x) d = t) opps))
              \<and> (\<forall>x \<in> set opps. \<exists>!t. \<exists>xs. map_of c t = Some xs \<and> x \<in> set xs))"
proof -
  have tl: "\<forall>x \<in> set opps. timeline x = determine_timeline (effort_score x) d"
    using research_timelines [OF assms] by blast
  have keys: "map fst empty_categorized = timeline_names"
    by (simp add: empty_categorized_def comp_def)
  have dist: "distinct (map fst empty_categorized)"
    by (simp add: keys timeline_names_def)
  have "\<forall>x \<in> set opps. timeline x \<in> fst ` set empty_categorized"
  proof
    fix x assume "x \<in> set opps"
    then have "timeline x \<in> set timeline_names" using tl determine_timeline_names by simp
    then show "timeline x \<in> fst ` set empty_categorized" using keys by (metis set_map)
  qed
  from categorize_buckets [OF dist this] obtain c
    where c: "categorize opps empty_categorized = Inr c" "map fst c = map fst empty_categorized"
      "\<forall>t xs. map_of empty_categorized t = Some xs \<longrightarrow> map_of c t = Some (xs @ filter (\<lambda>x. timeline x = t) opps)"
    by blast
  have same: "filter (\<lambda>x. timeline x = t) opps = filter (\<lambda>x. determine_timeline (effort_score x) d = t) opps" for t
    using tl by (intro filter_cong) simp_all
  have buckets: "\<forall>t \<in> set timeline_names.
      map_of c t = Some (filter (\<lambda>x. determine_timeline (effort_score x) d = t) opps)"
    using c(3) same by (simp add: map_of_empty_categorized)
  have once: "\<exists>!t. \<exists>xs. map_of c t = Some xs \<and> x \<in> set xs" if x: "x \<in> set opps" for x
  proof
    have "determine_timeline (effort_score x) d \<in> set timeline_names" by (rule determine_timeline_names)
    then show "\<exists>xs. map_of c (determine_timeline (effort_score x) d) = Some xs \<and> x \<in> set xs"
      using buckets x by simp
  next
    fix t assume "\<exists>xs. map_of c t = Some xs \<and> x \<in> set xs"
    then obtain xs where xs: "map_of c t = Some xs" "x \<in> set xs" by blast
    then have "t \<in> fst ` set c" by (metis domI dom_map_of_conv_image_fst)
    then have "t \<in> set timeline_names" using c(2) keys by (metis set_map)
    with buckets xs show "t = determine_timeline (effort_score x) d" by auto
  qed
  have "\<exists>c. categorized_opportunities opps = Inr c
              \<and> map fst c = timeline_names
              \<and> (\<forall>t \<in> set timeline_names.
                    map_of c t = Some (filter (\<lambda>x. determine_timeline (effort_score x) d = t) opps))
              \<and> (\<forall>x \<in> set opps. \<exists>!t. \<exists>xs. map_of c t = Some xs \<and> x \<in> set xs)"
    using c(1,2) keys buckets once by (auto simp: categorized_opportunities_def)
  then show ?thesis by (simp add: determine_timeline_def)
qed

theorem timeline_buckets_witness:
  "\<exists>opps. research_opportunities init_researcher potential_opportunities = Inr opps
     \<and> determine_timeline 2 (hd potential_opportunities) = ''Quick Win''
     \<and> (\<exists>c. categorized_opportunities opps = Inr c
           \<and> map fst c = timeline_names
           \<and> (\<forall>x \<in> set opps. \<exists>!t. \<exists>xs. map_of c t = Some xs \<and> x \<in> set xs))"
proof -
  from research_real obtain opps
    where opps: "research_opportunities init_researcher potential_opportunities = Inr opps"
    by auto
  note b = timeline_buckets [OF opps, of 2 "hd potential_opportunities"]
  from b have q: "determine_timeline 2 (hd potential_opportunities) = ''Quick Win''"
    by (elim conjE) simp
  from b obtain c where c: "categorized_opportunities opps = Inr c" "map fst c = timeline_names"
    "\<forall>x \<in> set opps. \<exists>!t. \<exists>xs. map_of c t = Some xs \<and> x \<in> set xs"
    by (elim conjE exE) 
  show ?thesis
    using opps q c by (intro exI conjI)
qed

section \<open>Scores\<close>





















lemma float_nonneg_cases:
  assumes "float_nonneg a"
  obtains x where "a = Finite x" "0 \<le> x" | "a = PInf"
  using assms by (cases a) (auto simp: float_nonneg_def)

lemma float_le_round_PInf [simp]: "float_le (float_round x) PInf"
  by (cases "float_round x") simp_all

lemma float_mul_mono:
  assumes "float_nonneg a" "float_le a a'" "0 < c" "c \<le> c'"
  shows "float_le (float_mul a (Finite c)) (float_mul a' (Finite c'))
       \<and> float_nonneg (float_mul a (Finite c))"
  using assms(1)
proof (cases rule: float_nonneg_cases)
  case (1 x)
  have nn: "float_nonneg (float_mul a (Finite c))"
    using 1 assms(3) by (simp add: float_round_nonneg)
  show ?thesis
  proof (cases a')
    case (Finite x')
    then have "x \<le> x'" using assms(2) 1 by simp
    then have "x * c \<le> x' * c'" using 1(2) assms(3,4) by (intro mult_mono) simp_all
    then show ?thesis using nn 1 Finite by (simp add: float_round_mono)
  next
    case PInf
    then show ?thesis using nn 1 assms(3,4) by (simp add: signed_inf_def)
  next
    case NInf
    then show ?thesis using assms(2) 1 by simp
  next
    case NaN
    then show ?thesis using assms(2) 1 by simp
  qed
next
  case 2
  then have "a' = PInf" using assms(2) by (cases a') simp_all
  then show ?thesis using 2 assms(3,4) by (simp add: signed_inf_def float_nonneg_def)
qed

lemma float_div_mono:
  assumes "float_nonneg a" "float_le a a'" "0 < e'" "e' \<le> e"
  shows "float_le (float_div a (Finite e)) (float_div a' (Finite e'))"
  using assms(1)
proof (cases rule: float_nonneg_cases)
  case (1 x)
  show ?thesis
  proof (cases a')
    case (Finite x')
    then have "x \<le> x'" using assms(2) 1 by simp
    then have "x / e \<le> x' / e'" using 1(2) assms(3,4) by (intro frac_le) simp_all
    then show ?thesis using 1 Finite assms(3,4) by (simp add: float_round_mono)
  next
    case PInf
    then show ?thesis using 1 assms(3,4) by (simp add: signed_inf_def)
  next
    case NInf
    then show ?thesis using assms(2) 1 by simp
  next
    case NaN
    then show ?thesis using assms(2) 1 by simp
  qed
next
  case 2
  then have "a' = PInf" using assms(2) by (cases a') simp_all
  then show ?thesis using 2 assms(3,4) by (simp add: signed_inf_def)
qed

lemma float_of_int_score: "1 \<le> i \<Longrightarrow> i \<le> 5 \<Longrightarrow> float_of_int i = Inr (Finite (of_int i))"
  by (intro float_of_int_small) simp

lemma calculate_priority_score_formula:
  assumes "int_truediv (search_volume x) 1000 = Inr reach"
    and "1 \<le> impact_score x" "impact_score x \<le> 5"
    and "1 \<le> confidence_score x" "confidence_score x \<le> 5"
    and "1 \<le> effort_score x" "effort_score x \<le> 5"
  shows "calculate_priority_score x =
          Inr (float_div
                 (float_mul (float_mul reach (Finite (of_int (impact_score x))))
                    (Finite (of_int (confidence_score x))))
                 (Finite (of_int (effort_score x))))"
  using assms
  by (simp add: calculate_priority_score_def float_mul_int_def float_truediv_int_def
        float_truediv_def float_of_int_score)

lemma calculate_priority_score_raises:
  "int_truediv (search_volume x) 1000 = Inl err \<Longrightarrow> calculate_priority_score x = Inl err"
  by (simp add: calculate_priority_score_def)

lemma int_truediv_nonneg:
  assumes "0 \<le> a" "0 < b" "int_truediv a b = Inr reach"
  shows "float_nonneg reach"
proof -
  have "0 \<le> (of_int a :: rat) / of_int b" using assms(1,2) by simp
  then have "float_nonneg (float_round (of_int a / of_int b))" by (rule float_round_nonneg)
  then show ?thesis using assms(3)
    by (cases "float_round (of_int a / of_int b)") (auto simp: int_truediv_def split: if_splits)
qed

lemma float_le_refl_nonneg: "float_nonneg a \<Longrightarrow> float_le a a"
  by (erule float_nonneg_cases) simp_all

text \<open>
  C6.  With a search volume that is not negative and sub-scores in \<open>[1, 5]\<close>, raising
  the impact score or the confidence score, or lowering the effort score, never lowers
  the priority score \<open>(search_volume / 1000 * impact * confidence) / effort\<close>; the score
  is a float whenever \<open>search_volume \<le> 2^1023 * 1000\<close>, and beyond the float range the
  division \<open>search_volume / 1000\<close> raises the same error for every choice of sub-scores.
\<close>

theorem priority_score_monotone:
  assumes "0 \<le> search_volume x"
    and "1 \<le> impact_score x" "impact_score x \<le> i'" "i' \<le> 5"
    and "1 \<le> confidence_score x" "confidence_score x \<le> c'" "c' \<le> 5"
    and "1 \<le> e'" "e' \<le> effort_score x" "effort_score x \<le> 5"
  shows "(case (calculate_priority_score x,
                calculate_priority_score (x\<lparr>impact_score := i', confidence_score := c', effort_score := e'\<rparr>)) of
            (Inr p, Inr p') \<Rightarrow> float_le p p'
          | (Inl err, Inl err') \<Rightarrow> err = err'
          | _ \<Rightarrow> False)
       \<and> (search_volume x \<le> 2 ^ 1023 * 1000 \<longrightarrow>
            (\<exists>reach. int_truediv (search_volume x) 1000 = Inr reach
               \<and> calculate_priority_score x =
                   Inr (float_div
                          (float_mul (float_mul reach (Finite (of_int (impact_score x))))
                             (Finite (of_int (confidence_score x))))
                          (Finite (of_int (effort_score x))))))"
proof
  show "search_volume x \<le> 2 ^ 1023 * 1000 \<longrightarrow>
            (\<exists>reach. int_truediv (search_volume x) 1000 = Inr reach
               \<and> calculate_priority_score x =
                   Inr (float_div
                          (float_mul (float_mul reach (Finite (of_int (impact_score x))))
                             (Finite (of_int (confidence_score x))))
                          (Finite (of_int (effort_score x)))))"
  proof
    assume "search_volume x \<le> 2 ^ 1023 * 1000"
    then obtain r where r: "int_truediv (search_volume x) 1000 = Inr (Finite r)"
      using assms(1) int_truediv_returns [of 1000 "search_volume x"] by auto
    from calculate_priority_score_formula [OF r] assms r
    show "\<exists>reach. int_truediv (search_volume x) 1000 = Inr reach
               \<and> calculate_priority_score x =
                   Inr (float_div
                          (float_mul (float_mul reach (Finite (of_int (impact_score x))))
                             (Finite (of_int (confidence_score x))))
                          (Finite (of_int (effort_score x))))"
      by simp
  qed
  show "(case (calculate_priority_score x,
                calculate_priority_score (x\<lparr>impact_score := i', confidence_score := c', effort_score := e'\<rparr>)) of
            (Inr p, Inr p') \<Rightarrow> float_le p p'
          | (Inl err, Inl err') \<Rightarrow> err = err'
          | _ \<Rightarrow> False)"
  proof (cases "int_truediv (search_volume x) 1000")
    case (Inl err)
    then show ?thesis
      using calculate_priority_score_raises [of x err]
        calculate_priority_score_raises [of "x\<lparr>impact_score := i', confidence_score := c', effort_score := e'\<rparr>" err]
      by simp
  next
    case (Inr reach)
    have f: "calculate_priority_score x =
            Inr (float_div
                   (float_mul (float_mul reach (Finite (of_int (impact_score x))))
                      (Finite (of_int (confidence_score x))))
                   (Finite (of_int (effort_score x))))"
      using Inr assms by (intro calculate_priority_score_formula) simp_all
    have f': "calculate_priority_score (x\<lparr>impact_score := i', confidence_score := c', effort_score := e'\<rparr>) =
            Inr (float_div (float_mul (float_mul reach (Finite (of_int i'))) (Finite (of_int c')))
                   (Finite (of_int e')))"
      using Inr assms
        calculate_priority_score_formula [of "x\<lparr>impact_score := i', confidence_score := c', effort_score := e'\<rparr>" reach]
      by simp
    have r: "float_nonneg reach"
      using assms(1) Inr by (intro int_truediv_nonneg [of "search_volume x" 1000]) simp_all
    have m1: "float_le (float_mul reach (Finite (of_int (impact_score x)))) (float_mul reach (Finite (of_int i')))
        \<and> float_nonneg (float_mul reach (Finite (of_int (impact_score x))))"
      using r assms(2,3) by (intro float_mul_mono float_le_refl_nonneg) simp_all
    have m2: "float_le (float_mul (float_mul reach (Finite (of_int (impact_score x)))) (Finite (of_int (confidence_score x))))
                (float_mul (float_mul reach (Finite (of_int i'))) (Finite (of_int c')))
        \<and> float_nonneg (float_mul (float_mul reach (Finite (of_int (impact_score x)))) (Finite (of_int (confidence_score x))))"
      using m1 assms(5,6) by (intro float_mul_mono) simp_all
    have "float_le (float_div (float_mul (float_mul reach (Finite (of_int (impact_score x)))) (Finite (of_int (confidence_score x)))) (Finite (of_int (effort_score x))))
                (float_div (float_mul (float_mul reach (Finite (of_int i'))) (Finite (of_int c'))) (Finite (of_int e')))"
      using m2 assms(8,9) by (intro float_div_mono) simp_all
    then show ?thesis by (simp add: f f')
  qed
qed

theorem priority_score_monotone_witness:
  "(let x = \<lparr>name = ''Digital Planning Printables'', category = ''digital_products'',
             search_volume = 5000, competition_level = ''Medium'', avg_price = 25 / 2,
             seasonal_factor = 1, keywords' = [], skill_requirements = [],
             resource_requirements = [], effort_score = 2, impact_score = 2,
             confidence_score = 5, timeline = ''Quick Win''\<rparr>
    in 0 \<le> search_volume x \<and> 1 \<le> impact_score x \<and> impact_score x \<le> 3 \<and> (3::int) \<le> 5
       \<and> 1 \<le> confidence_score x \<and> confidence_score x \<le> 5 \<and> (5::int) \<le> 5
       \<and> (1::int) \<le> 1 \<and> 1 \<le> effort_score x \<and> effort_score x \<le> 5
       \<and> search_volume x \<le> 2 ^ 1023 * 1000
       \<and> calculate_priority_score x = Inr (Finite 25)
       \<and> calculate_priority_score (x\<lparr>impact_score := 3, confidence_score := 5, effort_score := 1\<rparr>)
            = Inr (Finite 75)
       \<and> float_le (Finite 25) (Finite 75))"
proof -
  define x where "x = \<lparr>name = ''Digital Planning Printables'', category = ''digital_products'',
             search_volume = 5000, competition_level = ''Medium'', avg_price = 25 / 2,
             seasonal_factor = 1, keywords' = [], skill_requirements = [],
             resource_requirements = [], effort_score = 2, impact_score = 2,
             confidence_score = (5::int), timeline = ''Quick Win''\<rparr>"
  have p: "calculate_priority_score x = Inr (Finite 25)"
    by (simp add: x_def calculate_priority_score_def int_truediv_def float_mul_int_def
          float_truediv_int_def float_truediv_def float_of_int_small)
  have p': "calculate_priority_score (x\<lparr>impact_score := 3, confidence_score := 5, effort_score := 1\<rparr>)
            = Inr (Finite 75)"
    by (simp add: x_def calculate_priority_score_def int_truediv_def float_mul_int_def
          float_truediv_int_def float_truediv_def float_of_int_small)
  have h: "0 \<le> search_volume x" "1 \<le> impact_score x" "impact_score x \<le> 3"
    "1 \<le> confidence_score x" "confidence_score x \<le> 5" "1 \<le> effort_score x" "effort_score x \<le> 5"
    "search_volume x \<le> 2 ^ 1023 * 1000"
    by (simp_all add: x_def)
  from priority_score_monotone [of x 3 5 1] h p p' show ?thesis
    unfolding Let_def x_def [symmetric] by simp
qed

end
